theory Spec2Isabelle
  imports Main "HOL-Library.Word"
begin

unbundle bit_operations_syntax

section \<open>JavaScript values used by the scripts\<close>

text \<open>
  A JavaScript \<open>bigint\<close> is an unbounded integer, modelled as \<open>int\<close>. Strings are
  lists of characters; every string the scripts build or test is made of ASCII characters.
  A raised exception is a value of type \<open>error\<close>, and a function that may raise returns
  \<open>error + 'a\<close> with \<open>Inl\<close> for the exception.
\<close>

type_synonym bigint = int

datatype error =
    InvalidSignatureLength nat
  | SyntaxError
  | RangeError
  | AmountNotPositive
  | InsufficientBalance string
  | WalletHasNoAccount
  | RpcError string
  | AbiDecodingZeroData
  | AbiErrorSignatureNotFound string
  | AbiDecodingFailed
  | IntegerOutOfRange
  | AbiEncodingBytesSizeMismatch
  | QuoteFailed string
  | ProcessExit nat

subsection \<open>Digits\<close>

definition isDigit :: "char \<Rightarrow> bool" where
  "isDigit c = (let n = (of_char c :: nat) in 48 \<le> n \<and> n \<le> 57)"

definition isHexDigit :: "char \<Rightarrow> bool" where
  "isHexDigit c =
     (let n = (of_char c :: nat)
      in (48 \<le> n \<and> n \<le> 57) \<or> (97 \<le> n \<and> n \<le> 102) \<or> (65 \<le> n \<and> n \<le> 70))"

text \<open>The value of a digit in any radix up to 16; \<open>a\<close>-\<open>f\<close> in either case.\<close>

definition digitValue :: "char \<Rightarrow> nat" where
  "digitValue c =
     (let n = (of_char c :: nat)
      in if 48 \<le> n \<and> n \<le> 57 then n - 48
         else if 97 \<le> n \<and> n \<le> 102 then n - 87
         else if 65 \<le> n \<and> n \<le> 70 then n - 55
         else 0)"

text \<open>The digit that \<open>toString(radix)\<close> prints: lower case above 9.\<close>

definition digitChar :: "nat \<Rightarrow> char" where
  "digitChar d = (if d < 10 then char_of (48 + d) else char_of (87 + d))"

definition isRadixDigit :: "nat \<Rightarrow> char \<Rightarrow> bool" where
  "isRadixDigit b c = (isHexDigit c \<and> digitValue c < b)"

text \<open>The number a digit string denotes, most significant digit first.\<close>

definition digitsValue :: "nat \<Rightarrow> string \<Rightarrow> nat" where
  "digitsValue b s = foldl (\<lambda>acc c. acc * b + digitValue c) 0 s"

text \<open>The digits of a natural number in a radix, without leading zeros (\<open>0\<close> is \<open>''0''\<close>).\<close>

fun natToString :: "nat \<Rightarrow> nat \<Rightarrow> string" where
  "natToString b n =
     (if n < b \<or> b < 2 then [digitChar n]
      else natToString b (n div b) @ [digitChar (n mod b)])"

declare natToString.simps [simp del]

text \<open>\<open>BigInt.prototype.toString(radix)\<close>: a minus sign, then the digits of the magnitude.\<close>

definition toString :: "nat \<Rightarrow> bigint \<Rightarrow> string" where
  "toString b i = (if i < 0 then CHR ''-'' # natToString b (nat (- i)) else natToString b (nat i))"

subsection \<open>String methods\<close>

text \<open>\<open>s.padStart(n, c)\<close> and \<open>s.padEnd(n, c)\<close> with a one-character filler.\<close>

definition padStart :: "nat \<Rightarrow> char \<Rightarrow> string \<Rightarrow> string" where
  "padStart n c s = replicate (n - length s) c @ s"

definition padEnd :: "nat \<Rightarrow> char \<Rightarrow> string \<Rightarrow> string" where
  "padEnd n c s = s @ replicate (n - length s) c"

text \<open>\<open>s.slice(i, j)\<close> for indices \<open>0 \<le> i \<le> j\<close>; both are clamped to the length.\<close>

definition slice :: "nat \<Rightarrow> nat \<Rightarrow> string \<Rightarrow> string" where
  "slice i j s = take (j - i) (drop i s)"

definition startsWith :: "string \<Rightarrow> string \<Rightarrow> bool" where
  "startsWith p s = (take (length p) s = p)"

text \<open>\<open>s.replace(/0+$/, "")\<close>: the string without its trailing zeros.\<close>

definition stripTrailingZeros :: "string \<Rightarrow> string" where
  "stripTrailingZeros s = rev (dropWhile (\<lambda>c. c = CHR ''0'') (rev s))"

text \<open>
  White space as \<open>BigInt\<close> and \<open>parseInt\<close> trim it, for characters below 256:
  TAB, LF, VT, FF, CR, SP and NBSP.
\<close>

definition isWhiteSpace :: "char \<Rightarrow> bool" where
  "isWhiteSpace c = (let n = (of_char c :: nat) in (9 \<le> n \<and> n \<le> 13) \<or> n = 32 \<or> n = 160)"

definition trimString :: "string \<Rightarrow> string" where
  "trimString s = rev (dropWhile isWhiteSpace (rev (dropWhile isWhiteSpace s)))"

text \<open>
  \<open>BigInt(string)\<close>: the string is trimmed; the empty string is 0; a \<open>0x\<close>, \<open>0o\<close> or
  \<open>0b\<close> prefix (either case) selects the radix and takes no sign; otherwise an optional
  sign and decimal digits. Anything else raises a SyntaxError.
\<close>

definition parseDigits :: "nat \<Rightarrow> string \<Rightarrow> error + bigint" where
  "parseDigits b s =
     (if s \<noteq> [] \<and> list_all (isRadixDigit b) s then Inr (int (digitsValue b s)) else Inl SyntaxError)"

definition BigInt :: "string \<Rightarrow> error + bigint" where
  "BigInt str =
     (let t = trimString str
      in if t = [] then Inr 0
         else if take 2 t = ''0x'' \<or> take 2 t = ''0X'' then parseDigits 16 (drop 2 t)
         else if take 2 t = ''0o'' \<or> take 2 t = ''0O'' then parseDigits 8 (drop 2 t)
         else if take 2 t = ''0b'' \<or> take 2 t = ''0B'' then parseDigits 2 (drop 2 t)
         else if hd t = CHR ''-'' then map_sum id uminus (parseDigits 10 (tl t))
         else if hd t = CHR ''+'' then parseDigits 10 (tl t)
         else parseDigits 10 t)"

text \<open>
  \<open>parseInt(string, 16)\<close>: leading white space is skipped, then an optional sign, then an
  optional \<open>0x\<close>; the longest run of hexadecimal digits is read and the rest ignored.
  \<open>None\<close> is NaN.
\<close>

definition parseInt16 :: "string \<Rightarrow> int option" where
  "parseInt16 str =
     (let s1 = dropWhile isWhiteSpace str;
          neg = (s1 \<noteq> [] \<and> hd s1 = CHR ''-'');
          s2 = (if s1 \<noteq> [] \<and> (hd s1 = CHR ''-'' \<or> hd s1 = CHR ''+'') then tl s1 else s1);
          s3 = (if take 2 s2 = ''0x'' \<or> take 2 s2 = ''0X'' then drop 2 s2 else s2);
          ds = takeWhile isHexDigit s3
      in if ds = [] then None
         else Some ((if neg then - 1 else 1) * int (digitsValue 16 ds)))"

section \<open>Signature compaction (lib/order.ts)\<close>

definition parseSignatureToCompact :: "string \<Rightarrow> error + (string \<times> string)" where
  "parseSignatureToCompact signature =
     (let sig = (if startsWith ''0x'' signature then drop 2 signature else signature)
      in if length sig \<noteq> 130 then Inl (InvalidSignatureLength (length sig))
         else
           let r = ''0x'' @ slice 0 64 sig;
               s = slice 64 128 sig;
               v = parseInt16 (slice 128 130 sig)
           in case BigInt (''0x'' @ s) of
                Inl e \<Rightarrow> Inl e
              | Inr sBigInt \<Rightarrow>
                  let vsBigInt = (if v = Some 28 then sBigInt OR push_bit 255 1 else sBigInt);
                      vs = ''0x'' @ padStart 64 (CHR ''0'') (toString 16 vsBigInt)
                  in Inr (r, vs))"

text \<open>The signature without its optional \<open>0x\<close> prefix, as the function computes it.\<close>

definition hexPart :: "string \<Rightarrow> string" where
  "hexPart signature = (if startsWith ''0x'' signature then drop 2 signature else signature)"

text \<open>
  The values the specification names: \<open>r\<close> is the first 32 bytes of the signature,
  \<open>s\<close> the next 32 and \<open>v\<close> the last one, read as big-endian numbers from the
  130 hexadecimal characters.
\<close>

definition sigR :: "string \<Rightarrow> nat" where
  "sigR sig = digitsValue 16 (take 64 sig)"

definition sigS :: "string \<Rightarrow> nat" where
  "sigS sig = digitsValue 16 (take 64 (drop 64 sig))"

definition sigV :: "string \<Rightarrow> nat" where
  "sigV sig = digitsValue 16 (drop 128 sig)"

section \<open>Token amounts (config.ts)\<close>

text \<open>Division and remainder of \<open>bigint\<close> round towards zero; the remainder has the
  sign of the dividend.\<close>

definition bigintDiv :: "bigint \<Rightarrow> bigint \<Rightarrow> bigint" where
  "bigintDiv a b = sgn a * sgn b * (\<bar>a\<bar> div \<bar>b\<bar>)"

definition bigintMod :: "bigint \<Rightarrow> bigint \<Rightarrow> bigint" where
  "bigintMod a b = a - bigintDiv a b * b"

definition formatTokenAmount :: "bigint \<Rightarrow> nat \<Rightarrow> string option \<Rightarrow> string" where
  "formatTokenAmount amount decimals symbol =
     (let divisor = 10 ^ decimals;
          whole = bigintDiv amount divisor;
          fraction = bigintMod amount divisor;
          fractionStr = stripTrailingZeros (padStart decimals (CHR ''0'') (toString 10 fraction));
          formatted = (if fractionStr \<noteq> [] then toString 10 whole @ ''.'' @ fractionStr
                       else toString 10 whole)
      in case symbol of
           None \<Rightarrow> formatted
         | Some sy \<Rightarrow> if sy \<noteq> [] then formatted @ '' '' @ sy else formatted)"

text \<open>
  Modelled from the spec: "parsing its output back with the same decimals". The parser is
  not part of the repository (the scripts call viem's \<open>parseUnits\<close>); this is the decimal
  reading of \<open>whole.fraction\<close> as an integer number of base units, defined where the
  fraction has at most \<open>decimals\<close> digits, so that no rounding takes place.
\<close>

definition parseTokenAmount :: "nat \<Rightarrow> string \<Rightarrow> bigint option" where
  "parseTokenAmount decimals str =
     (let whole = takeWhile (\<lambda>c. c \<noteq> CHR ''.'') str;
          rest = dropWhile (\<lambda>c. c \<noteq> CHR ''.'') str;
          fraction = (if rest = [] then [] else tl rest)
      in if whole \<noteq> [] \<and> list_all isDigit whole \<and> list_all isDigit fraction
            \<and> length fraction \<le> decimals
         then Some (int (digitsValue 10 (whole @ padEnd decimals (CHR ''0'') fraction)))
         else None)"

section \<open>Configuration (config.ts)\<close>

type_synonym address = string

record Token =
  tokenAddress :: address
  tokenDecimals :: nat
  tokenSymbol :: string

definition USDC :: Token where
  "USDC = \<lparr>tokenAddress = ''0x3c499c542cEF5E3811e1192ce70d8cC03d5c3359'', tokenDecimals = 6,
            tokenSymbol = ''USDC''\<rparr>"

definition USDT :: Token where
  "USDT = \<lparr>tokenAddress = ''0xc2132D05D31c914a87C6611C10748AEb04B58e8F'', tokenDecimals = 6,
            tokenSymbol = ''USDT''\<rparr>"

definition BRLA :: Token where
  "BRLA = \<lparr>tokenAddress = ''0xE6A537a407488807F0bbeb0038B79004f19DDDFb'', tokenDecimals = 18,
            tokenSymbol = ''BRLA''\<rparr>"

definition TOKENS :: "Token list" where
  "TOKENS = [USDC, USDT, BRLA]"

definition LIMIT_ORDER_PROTOCOL_ADDRESS :: address where
  "LIMIT_ORDER_PROTOCOL_ADDRESS = ''0x111111125421ca6dc452d289314280a0f8842a65''"

text \<open>\<open>ORDER_CONFIG\<close>: the maker asset, the taker asset and the expiration in minutes.\<close>

definition ORDER_CONFIG_makerAsset :: Token where
  "ORDER_CONFIG_makerAsset = USDC"

definition ORDER_CONFIG_takerAsset :: Token where
  "ORDER_CONFIG_takerAsset = BRLA"

definition ORDER_CONFIG_expirationMinutes :: int where
  "ORDER_CONFIG_expirationMinutes = 60"

text \<open>\<open>maxUint256\<close> of viem.\<close>

definition maxUint256 :: bigint where
  "maxUint256 = 2 ^ 256 - 1"

text \<open>\<open>String.prototype.toLowerCase\<close> on characters below 256: the ASCII capitals, and the
  Latin-1 capitals other than the multiplication sign.\<close>

definition toLowerChar :: "char \<Rightarrow> char" where
  "toLowerChar c =
     (let n = (of_char c :: nat)
      in if (65 \<le> n \<and> n \<le> 90) \<or> (192 \<le> n \<and> n \<le> 222 \<and> n \<noteq> 215) then char_of (n + 32) else c)"

definition toLowerCase :: "string \<Rightarrow> string" where
  "toLowerCase s = map toLowerChar s"

definition getTokenByAddress :: "string \<Rightarrow> Token option" where
  "getTokenByAddress addr =
     (let lowerAddress = toLowerCase addr
      in find (\<lambda>token. toLowerCase (tokenAddress token) = lowerAddress) TOKENS)"

section \<open>Quotes (lib/quote.ts)\<close>

text \<open>A quote. The field \<open>rate\<close> exists only in the variant that asks the filler service.\<close>

record QuoteResult =
  inputAmount :: bigint
  outputAmount :: bigint
  rate :: "string option"
  inputToken :: Token
  outputToken :: Token

text \<open>The variant with the hardcoded rate: 1 USDC = 5 BRLA, 6 against 18 decimals.\<close>

definition fetchQuoteFromApi :: "bigint \<Rightarrow> bigint" where
  "fetchQuoteFromApi inputAmountRaw =
     (let rateNumerator = 5; decimalAdjustment = 10 ^ 12
      in inputAmountRaw * rateNumerator * decimalAdjustment)"

definition getQuote :: "bigint \<Rightarrow> QuoteResult" where
  "getQuote inputAmountRaw =
     (let outputAmount' = fetchQuoteFromApi inputAmountRaw
      in \<lparr>inputAmount = inputAmountRaw, outputAmount = outputAmount', rate = None,
          inputToken = ORDER_CONFIG_makerAsset, outputToken = ORDER_CONFIG_takerAsset\<rparr>)"

section \<open>Orders (lib/order.ts)\<close>

record OrderParams =
  makerAsset :: address
  takerAsset :: address
  makingAmount :: bigint
  takingAmount :: bigint
  maker :: address
  receiver :: "address option"
  expirationMinutes :: "int option"

text \<open>
  The \<open>LimitOrder\<close> object of the 1inch SDK: the fields the constructor stores, the
  salt it draws and the packed maker traits.
\<close>

record LimitOrder =
  lo_salt :: bigint
  lo_maker :: address
  lo_receiver :: address
  lo_makerAsset :: address
  lo_takerAsset :: address
  lo_makingAmount :: bigint
  lo_takingAmount :: bigint
  lo_makerTraits :: bigint

text \<open>The order as strings: what \<open>LimitOrder.build()\<close> returns and what is printed as JSON.\<close>

record OrderFields =
  o_salt :: string
  o_maker :: string
  o_receiver :: string
  o_makerAsset :: string
  o_takerAsset :: string
  o_makingAmount :: string
  o_takingAmount :: string
  o_makerTraits :: string

record SignedOrder =
  so_order :: LimitOrder
  so_signature :: string
  so_orderHash :: string
  so_orderData :: OrderFields

record OrderOutput =
  out_orderHash :: string
  out_signature :: string
  out_order :: OrderFields

text \<open>
  What the scripts take from outside the repository when they build an order: the clock
  (\<open>Date.now()\<close>, in milliseconds), the random nonce (\<open>Math.floor(Math.random() * 2 ** 40)\<close>),
  the salt the SDK draws for a new order and the SDK's packing of an expiration and a
  nonce into maker traits.
\<close>

record Sdk =
  clockMs :: int
  randomNonce :: bigint
  sdkSalt :: bigint
  sdkMakerTraits :: "bigint \<Rightarrow> bigint \<Rightarrow> bigint"

definition buildMakerTraits :: "Sdk \<Rightarrow> int \<Rightarrow> bigint" where
  "buildMakerTraits sdk minutes =
     (let expirationTimestamp = clockMs sdk div 1000 + minutes * 60;
          nonce = randomNonce sdk
      in sdkMakerTraits sdk expirationTimestamp nonce)"

definition createLimitOrder :: "Sdk \<Rightarrow> OrderParams \<Rightarrow> LimitOrder" where
  "createLimitOrder sdk params =
     (let minutes = (case expirationMinutes params of None \<Rightarrow> 60 * 24 | Some m \<Rightarrow> m);
          traits = buildMakerTraits sdk minutes
      in \<lparr>lo_salt = sdkSalt sdk,
          lo_maker = maker params,
          lo_receiver = (case receiver params of None \<Rightarrow> maker params | Some r \<Rightarrow> r),
          lo_makerAsset = makerAsset params,
          lo_takerAsset = takerAsset params,
          lo_makingAmount = makingAmount params,
          lo_takingAmount = takingAmount params,
          lo_makerTraits = traits\<rparr>)"

text \<open>
  Modelled from the spec: \<open>LimitOrder.build()\<close> belongs to the SDK; the spec's data model
  gives its result, a flat record whose numeric fields are decimal strings.
\<close>

definition build :: "LimitOrder \<Rightarrow> OrderFields" where
  "build order =
     \<lparr>o_salt = toString 10 (lo_salt order),
      o_maker = lo_maker order,
      o_receiver = lo_receiver order,
      o_makerAsset = lo_makerAsset order,
      o_takerAsset = lo_takerAsset order,
      o_makingAmount = toString 10 (lo_makingAmount order),
      o_takingAmount = toString 10 (lo_takingAmount order),
      o_makerTraits = toString 10 (lo_makerTraits order)\<rparr>"

definition computeOrderHash :: "LimitOrder \<Rightarrow> string" where
  "computeOrderHash order = ''0x'' @ padStart 64 (CHR ''0'') (toString 16 (lo_salt order))"

text \<open>\<open>toString()\<close> of a string is the string.\<close>

definition formatOrderOutput :: "SignedOrder \<Rightarrow> OrderOutput" where
  "formatOrderOutput signedOrder =
     (let orderData = so_orderData signedOrder
      in \<lparr>out_orderHash = so_orderHash signedOrder,
          out_signature = so_signature signedOrder,
          out_order =
            \<lparr>o_salt = o_salt orderData,
             o_maker = o_maker orderData,
             o_receiver = o_receiver orderData,
             o_makerAsset = o_makerAsset orderData,
             o_takerAsset = o_takerAsset orderData,
             o_makingAmount = o_makingAmount orderData,
             o_takingAmount = o_takingAmount orderData,
             o_makerTraits = o_makerTraits orderData\<rparr>\<rparr>)"

section \<open>The chain, the wallet and the network\<close>

text \<open>
  The arguments of a \<open>fillOrder\<close> call. \<open>encodeFunctionData\<close> of viem turns them into
  bytes; the model keeps the arguments.
\<close>

record OrderStruct =
  os_salt :: bigint
  os_maker :: bigint
  os_receiver :: bigint
  os_makerAsset :: bigint
  os_takerAsset :: bigint
  os_makingAmount :: bigint
  os_takingAmount :: bigint
  os_makerTraits :: bigint

datatype calldata = FillOrderCall OrderStruct string string bigint bigint

datatype receipt_status = Success | Reverted

text \<open>
  Every request a script sends: the quote request, the reads of an ERC-20 contract, the
  approval transaction (token, sender, spender, amount), the wait for a receipt, the typed
  data signature, the gas estimate and the fill transaction (sender, target, data, gas).
\<close>

datatype event =
    QuoteRequest bigint
  | ReadBalance address address
  | ReadAllowance address address address
  | WriteApprove address address address bigint
  | WaitForReceipt string
  | SignTypedData address LimitOrder
  | EstimateGas address address calldata
  | SendTransaction address address calldata bigint

text \<open>The answer of the filler service to a quote request: an HTTP error with its optional
  \<open>error\<close> text and status text, or the three strings of a quote.\<close>

datatype quote_reply =
    QuoteHttpError "string option" string
  | QuoteHttpOk string string string

text \<open>
  The world a script runs in. The balances and allowances of the ERC-20 contracts are
  state. The rest is what the outside answers: which request fails and with what message,
  the hash of a submitted transaction, the status of its receipt, the gas estimate, the
  signature of the wallet, the reply of the filler service, and the functions of viem and
  of the SDK that are not part of the repository (\<open>privateKeyToAccount\<close>, \<open>parseUnits\<close>,
  the order construction). The trace lists the requests sent, oldest first.
\<close>

record World =
  chainBalance :: "address \<Rightarrow> address \<Rightarrow> bigint"
  chainAllowance :: "address \<Rightarrow> address \<Rightarrow> address \<Rightarrow> bigint"
  rpcFailure :: "event \<Rightarrow> string option"
  txHashOf :: "event \<Rightarrow> string"
  txStatusOf :: "string \<Rightarrow> receipt_status"
  gasEstimateOf :: "address \<Rightarrow> address \<Rightarrow> calldata \<Rightarrow> nat"
  signatureOf :: "address \<Rightarrow> LimitOrder \<Rightarrow> string"
  quoteReply :: "bigint \<Rightarrow> quote_reply"
  privateKeyToAccount :: "string \<Rightarrow> error + address"
  parseUnits :: "string \<Rightarrow> nat \<Rightarrow> error + bigint"
  sdkOf :: Sdk
  trace :: "event list"

text \<open>An asynchronous function: it runs in a world and returns a value or raises, and
  leaves a world behind.\<close>

type_synonym 'a io = "World \<Rightarrow> (error + 'a) \<times> World"

definition io_return :: "'a \<Rightarrow> 'a io" where
  "io_return x w = (Inr x, w)"

definition io_throw :: "error \<Rightarrow> 'a io" where
  "io_throw e w = (Inl e, w)"

definition io_bind :: "'a io \<Rightarrow> ('a \<Rightarrow> 'b io) \<Rightarrow> 'b io" where
  "io_bind m f w = (case m w of (Inl e, w') \<Rightarrow> (Inl e, w') | (Inr x, w') \<Rightarrow> f x w')"

definition io_lift :: "error + 'a \<Rightarrow> 'a io" where
  "io_lift r w = (r, w)"

definition io_catch :: "'a io \<Rightarrow> (error \<Rightarrow> 'a io) \<Rightarrow> 'a io" where
  "io_catch m h w = (case m w of (Inl e, w') \<Rightarrow> h e w' | (Inr x, w') \<Rightarrow> (Inr x, w'))"

definition bindE :: "error + 'a \<Rightarrow> ('a \<Rightarrow> error + 'b) \<Rightarrow> error + 'b" where
  "bindE r f = (case r of Inl e \<Rightarrow> Inl e | Inr x \<Rightarrow> f x)"

text \<open>Sending a request: it is recorded, and it fails when the outside says so.\<close>

definition request :: "event \<Rightarrow> unit io" where
  "request ev w =
     (let w' = w\<lparr>trace := trace w @ [ev]\<rparr>
      in case rpcFailure w ev of
           Some m \<Rightarrow> (Inl (RpcError m), w')
         | None \<Rightarrow> (Inr (), w'))"

text \<open>A wallet client; its account may be missing.\<close>

record WalletClient =
  account :: "address option"

section \<open>Token operations (lib/blockchain.ts)\<close>

definition createPolygonWalletClient :: "address \<Rightarrow> WalletClient" where
  "createPolygonWalletClient acct = \<lparr>account = Some acct\<rparr>"

definition createAccountFromPrivateKey :: "string \<Rightarrow> address io" where
  "createAccountFromPrivateKey privateKey w = (privateKeyToAccount w privateKey, w)"

definition getTokenBalance :: "address \<Rightarrow> address \<Rightarrow> bigint io" where
  "getTokenBalance tokenAddr owner =
     io_bind (request (ReadBalance tokenAddr owner)) (\<lambda>_ w. (Inr (chainBalance w tokenAddr owner), w))"

definition getTokenAllowance :: "address \<Rightarrow> address \<Rightarrow> address \<Rightarrow> bigint io" where
  "getTokenAllowance tokenAddr owner spender =
     io_bind (request (ReadAllowance tokenAddr owner spender))
       (\<lambda>_ w. (Inr (chainAllowance w tokenAddr owner spender), w))"

text \<open>
  Modelled from the spec: the ERC-20 contract is not part of the repository. An allowance
  is "the amount a token owner has authorized a specific contract to transfer on their
  behalf": an \<open>approve\<close> transaction that succeeds sets the allowance of its sender for
  the spender to the amount, one that reverts changes nothing. The function returns the
  transaction hash.
\<close>

definition writeContract_approve :: "address \<Rightarrow> address \<Rightarrow> address \<Rightarrow> bigint \<Rightarrow> string io" where
  "writeContract_approve tokenAddr sender spender amount w =
     (let ev = WriteApprove tokenAddr sender spender amount
      in case request ev w of
           (Inl e, w') \<Rightarrow> (Inl e, w')
         | (Inr _, w') \<Rightarrow>
             let h = txHashOf w ev
             in (Inr h,
                 if txStatusOf w h = Success
                 then w'\<lparr>chainAllowance := (\<lambda>t o' s.
                        if t = tokenAddr \<and> o' = sender \<and> s = spender then amount
                        else chainAllowance w t o' s)\<rparr>
                 else w'))"

definition waitForTransactionReceipt :: "string \<Rightarrow> receipt_status io" where
  "waitForTransactionReceipt h =
     io_bind (request (WaitForReceipt h)) (\<lambda>_ w. (Inr (txStatusOf w h), w))"

text \<open>The amount is optional and defaults to \<open>maxUint256\<close>.\<close>

definition approveToken :: "WalletClient \<Rightarrow> address \<Rightarrow> address \<Rightarrow> bigint option \<Rightarrow> string io" where
  "approveToken walletClient tokenAddr spender amountOpt =
     (let amount = (case amountOpt of None \<Rightarrow> maxUint256 | Some a \<Rightarrow> a)
      in case account walletClient of
           None \<Rightarrow> io_throw WalletHasNoAccount
         | Some acct \<Rightarrow>
             io_bind (writeContract_approve tokenAddr acct spender amount) (\<lambda>h.
             io_bind (waitForTransactionReceipt h) (\<lambda>_.
             io_return h)))"

record ApprovalResult =
  approved :: bool
  approvalTxHash :: "string option"

definition ensureTokenApproval ::
    "WalletClient \<Rightarrow> address \<Rightarrow> address \<Rightarrow> bigint \<Rightarrow> ApprovalResult io" where
  "ensureTokenApproval walletClient tokenAddr owner requiredAmount =
     io_bind (getTokenAllowance tokenAddr owner LIMIT_ORDER_PROTOCOL_ADDRESS) (\<lambda>currentAllowance.
       if currentAllowance \<ge> requiredAmount
       then io_return \<lparr>approved = True, approvalTxHash = None\<rparr>
       else io_bind (approveToken walletClient tokenAddr LIMIT_ORDER_PROTOCOL_ADDRESS None) (\<lambda>h.
            io_return \<lparr>approved = True, approvalTxHash = Some h\<rparr>))"

record BalanceCheck =
  sufficient :: bool
  balance :: bigint

definition validateSufficientBalance :: "address \<Rightarrow> address \<Rightarrow> bigint \<Rightarrow> BalanceCheck io" where
  "validateSufficientBalance tokenAddr owner requiredAmount =
     io_bind (getTokenBalance tokenAddr owner) (\<lambda>b.
       io_return \<lparr>sufficient = (b \<ge> requiredAmount), balance = b\<rparr>)"

section \<open>Signing (lib/order.ts)\<close>

definition signOrder :: "LimitOrder \<Rightarrow> WalletClient \<Rightarrow> string io" where
  "signOrder order walletClient =
     (case account walletClient of
        None \<Rightarrow> io_throw WalletHasNoAccount
      | Some acct \<Rightarrow>
          io_bind (request (SignTypedData acct order)) (\<lambda>_ w. (Inr (signatureOf w acct order), w)))"

definition generateSignedOrder :: "OrderParams \<Rightarrow> WalletClient \<Rightarrow> SignedOrder io" where
  "generateSignedOrder params walletClient w =
     (let order = createLimitOrder (sdkOf w) params
      in io_bind (signOrder order walletClient) (\<lambda>sig.
           let orderHash = computeOrderHash order;
               orderData = build order
           in io_return \<lparr>so_order = order, so_signature = sig, so_orderHash = orderHash,
                         so_orderData = orderData\<rparr>) w)"

section \<open>The quote of the filler service (lib/quote.ts, the variant with a rate)\<close>

text \<open>
  The request carries the amount (as \<open>formatUnits\<close> prints it). A reply that is not OK
  raises \<open>Quote failed\<close> with the error text of the reply, or its status text; an OK reply
  is read with \<open>BigInt\<close>, the input amount first.
\<close>

definition getQuoteApi :: "bigint \<Rightarrow> QuoteResult io" where
  "getQuoteApi inputAmountRaw =
     io_bind (request (QuoteRequest inputAmountRaw)) (\<lambda>_ w.
       case quoteReply w inputAmountRaw of
         QuoteHttpError err statusText \<Rightarrow>
           (Inl (QuoteFailed (''Quote failed: '' @ (case err of Some e \<Rightarrow> e | None \<Rightarrow> statusText))), w)
       | QuoteHttpOk inputStr expectedOutput rateStr \<Rightarrow>
           (bindE (BigInt inputStr) (\<lambda>i.
            bindE (BigInt expectedOutput) (\<lambda>out.
            Inr \<lparr>inputAmount = i, outputAmount = out, rate = Some rateStr,
                 inputToken = ORDER_CONFIG_makerAsset, outputToken = ORDER_CONFIG_takerAsset\<rparr>)), w))"

section \<open>Order generation (lib/generate-order.ts)\<close>

record GenerateOrderOptions =
  makerPrivateKey :: string
  amountStr :: string
  skipApproval :: "bool option"
  silent :: "bool option"

record GenerateOrderResult =
  gen_order :: OrderOutput
  gen_quote :: QuoteResult
  gen_makerAddress :: address

text \<open>
  \<open>generateOrder\<close>. The progress lines it prints when not silent are left out; none of
  them can raise. The message of the insufficient-balance error gives the required and the
  available amount.
\<close>

definition insufficientBalanceMessage :: "Token \<Rightarrow> bigint \<Rightarrow> bigint \<Rightarrow> string" where
  "insufficientBalanceMessage token required available =
     ''Insufficient '' @ tokenSymbol token @ '' balance. Required: ''
       @ formatTokenAmount required (tokenDecimals token) (Some (tokenSymbol token))
       @ '', Available: ''
       @ formatTokenAmount available (tokenDecimals token) (Some (tokenSymbol token))"

definition generateOrder :: "GenerateOrderOptions \<Rightarrow> GenerateOrderResult io" where
  "generateOrder options =
     (let skip = (case skipApproval options of None \<Rightarrow> False | Some b \<Rightarrow> b);
          makerToken = ORDER_CONFIG_makerAsset;
          takerToken = ORDER_CONFIG_takerAsset;
          minutes = ORDER_CONFIG_expirationMinutes
      in io_bind (\<lambda>w. (parseUnits w (amountStr options) (tokenDecimals makerToken), w)) (\<lambda>makingAmountRaw.
         if makingAmountRaw \<le> 0 then io_throw AmountNotPositive
         else
         io_bind (getQuoteApi makingAmountRaw) (\<lambda>quote.
         let makingAmt = inputAmount quote; takingAmt = outputAmount quote
         in
         io_bind (createAccountFromPrivateKey (makerPrivateKey options)) (\<lambda>makerAccount.
         let walletClient = createPolygonWalletClient makerAccount
         in
         io_bind (validateSufficientBalance (tokenAddress makerToken) makerAccount makingAmt) (\<lambda>chk.
         if \<not> sufficient chk
         then io_throw (InsufficientBalance (insufficientBalanceMessage makerToken makingAmt (balance chk)))
         else
         io_bind (if \<not> skip
                  then io_bind (ensureTokenApproval walletClient (tokenAddress makerToken) makerAccount makingAmt)
                         (\<lambda>_. io_return ())
                  else io_return ()) (\<lambda>_.
         let orderParams = \<lparr>makerAsset = tokenAddress makerToken, takerAsset = tokenAddress takerToken,
                             makingAmount = makingAmt, takingAmount = takingAmt,
                             maker = makerAccount, receiver = None, expirationMinutes = Some minutes\<rparr>
         in
         io_bind (generateSignedOrder orderParams walletClient) (\<lambda>signedOrder.
         io_return \<lparr>gen_order = formatOrderOutput signedOrder, gen_quote = quote,
                     gen_makerAddress = makerAccount\<rparr>)))))))"

section \<open>The order generator script (src/generate-order.ts)\<close>

text \<open>
  \<open>main\<close>, from the point where the amount prompt has returned \<open>amountStr\<close>; \<open>confirmed\<close>
  is the answer to the confirmation prompt. The quote is the hardcoded one. The script prints
  the rate as \<open>makingAmount / takingAmount\<close>, a division that raises a RangeError on
  zero. \<open>process.exit(n)\<close> is the error \<open>ProcessExit n\<close>.
\<close>

definition main_generateOrder :: "string \<Rightarrow> string \<Rightarrow> bool \<Rightarrow> OrderOutput io" where
  "main_generateOrder makerKey amountString confirmed =
     (let makerToken = ORDER_CONFIG_makerAsset;
          takerToken = ORDER_CONFIG_takerAsset;
          minutes = ORDER_CONFIG_expirationMinutes
      in io_bind (\<lambda>w. (parseUnits w amountString (tokenDecimals makerToken), w)) (\<lambda>makingAmountRaw.
         let quote = getQuote makingAmountRaw;
             makingAmt = inputAmount quote;
             takingAmt = outputAmount quote
         in
         if takingAmt = 0 then io_throw RangeError
         else
         io_bind (createAccountFromPrivateKey makerKey) (\<lambda>makerAccount.
         let walletClient = createPolygonWalletClient makerAccount
         in
         io_bind (validateSufficientBalance (tokenAddress makerToken) makerAccount makingAmt) (\<lambda>chk.
         if \<not> sufficient chk then io_throw (ProcessExit 1)
         else if \<not> confirmed then io_throw (ProcessExit 0)
         else
         io_bind (ensureTokenApproval walletClient (tokenAddress makerToken) makerAccount makingAmt) (\<lambda>_.
         let orderParams = \<lparr>makerAsset = tokenAddress makerToken, takerAsset = tokenAddress takerToken,
                             makingAmount = makingAmt, takingAmount = takingAmt,
                             maker = makerAccount, receiver = None, expirationMinutes = Some minutes\<rparr>
         in
         io_bind (generateSignedOrder orderParams walletClient) (\<lambda>signedOrder.
         io_return (formatOrderOutput signedOrder)))))))"

section \<open>Filling an order (test/fill.ts)\<close>

definition buildOrderStruct :: "OrderFields \<Rightarrow> error + OrderStruct" where
  "buildOrderStruct order =
     bindE (BigInt (o_salt order)) (\<lambda>salt.
     bindE (BigInt (o_maker order)) (\<lambda>mk.
     bindE (BigInt (o_receiver order)) (\<lambda>rc.
     bindE (BigInt (o_makerAsset order)) (\<lambda>ma.
     bindE (BigInt (o_takerAsset order)) (\<lambda>ta.
     bindE (BigInt (o_makingAmount order)) (\<lambda>mam.
     bindE (BigInt (o_takingAmount order)) (\<lambda>tam.
     bindE (BigInt (o_makerTraits order)) (\<lambda>mt.
     Inr \<lparr>os_salt = salt, os_maker = mk, os_receiver = rc, os_makerAsset = ma,
          os_takerAsset = ta, os_makingAmount = mam, os_takingAmount = tam,
          os_makerTraits = mt\<rparr>))))))))"

text \<open>
  \<open>encodeFunctionData\<close> of viem for \<open>fillOrder\<close>. The arguments are encoded in the order
  of the ABI: the eight \<open>uint256\<close> fields of the order, the two \<open>bytes32\<close> values, the
  amount and the taker traits. A \<open>uint256\<close> outside \<open>0 .. 2^256 - 1\<close> raises
  IntegerOutOfRangeError, and a \<open>bytes32\<close> value whose size is not 32 bytes raises
  AbiEncodingBytesSizeMismatchError. The size of a value that starts with \<open>0x\<close> is half
  the number of characters after the prefix, rounded up. The call data stands for the
  encoded bytes: it is the list of the arguments.
\<close>

definition encodeNumber :: "bigint \<Rightarrow> error + bigint" where
  "encodeNumber v = (if v > maxUint256 \<or> v < 0 then Inl IntegerOutOfRange else Inr v)"

definition hexSize :: "string \<Rightarrow> nat" where
  "hexSize v = (if startsWith ''0x'' v then (length v - 2 + 1) div 2 else length v)"

definition encodeBytes32 :: "string \<Rightarrow> error + string" where
  "encodeBytes32 v = (if hexSize v \<noteq> 32 then Inl AbiEncodingBytesSizeMismatch else Inr v)"

definition encodeFunctionData ::
    "OrderStruct \<Rightarrow> string \<Rightarrow> string \<Rightarrow> bigint \<Rightarrow> bigint \<Rightarrow> error + calldata" where
  "encodeFunctionData orderStruct r vs amount takerTraits =
     bindE (encodeNumber (os_salt orderStruct)) (\<lambda>_.
     bindE (encodeNumber (os_maker orderStruct)) (\<lambda>_.
     bindE (encodeNumber (os_receiver orderStruct)) (\<lambda>_.
     bindE (encodeNumber (os_makerAsset orderStruct)) (\<lambda>_.
     bindE (encodeNumber (os_takerAsset orderStruct)) (\<lambda>_.
     bindE (encodeNumber (os_makingAmount orderStruct)) (\<lambda>_.
     bindE (encodeNumber (os_takingAmount orderStruct)) (\<lambda>_.
     bindE (encodeNumber (os_makerTraits orderStruct)) (\<lambda>_.
     bindE (encodeBytes32 r) (\<lambda>_.
     bindE (encodeBytes32 vs) (\<lambda>_.
     bindE (encodeNumber amount) (\<lambda>_.
     bindE (encodeNumber takerTraits) (\<lambda>_.
     Inr (FillOrderCall orderStruct r vs amount takerTraits)))))))))))))"

definition buildFillOrderData :: "OrderOutput \<Rightarrow> bigint \<Rightarrow> error + calldata" where
  "buildFillOrderData order takingAmt =
     bindE (buildOrderStruct (out_order order)) (\<lambda>orderStruct.
     bindE (parseSignatureToCompact (out_signature order)) (\<lambda>(r, vs).
     encodeFunctionData orderStruct r vs takingAmt 0))"

record FillResult =
  success :: bool
  txHash :: "string option"
  errorMessage :: "string option"

text \<open>The message of a caught exception.\<close>

fun errorText :: "error \<Rightarrow> string" where
  "errorText (RpcError m) = m"
| "errorText (QuoteFailed m) = m"
| "errorText (InsufficientBalance m) = m"
| "errorText (InvalidSignatureLength n) =
     ''Invalid signature length: expected 130 hex chars, got '' @ natToString 10 n"
| "errorText WalletHasNoAccount = ''Wallet client must have an account''"
| "errorText AmountNotPositive = ''Amount must be greater than zero.''"
| "errorText _ = []"

text \<open>
  \<open>executeFill\<close>. The line it prints with the taker's balance is left out. Everything
  before the \<open>try\<close> block raises to the caller; inside it, a failure of the gas estimate,
  of the submission or of the wait for the receipt is caught and returned as a result.
\<close>

definition executeFill :: "OrderOutput \<Rightarrow> string \<Rightarrow> FillResult io" where
  "executeFill order takerPrivateKey =
     io_bind (createAccountFromPrivateKey takerPrivateKey) (\<lambda>takerAccount.
     let walletClient = createPolygonWalletClient takerAccount
     in
     io_bind (io_lift (BigInt (o_takingAmount (out_order order)))) (\<lambda>takingAmt.
     io_bind (io_lift (BigInt (o_takerAsset (out_order order)))) (\<lambda>takerAssetNumber.
     let takerAssetAddress = ''0x'' @ padStart 40 (CHR ''0'') (toString 16 takerAssetNumber)
     in
     case getTokenByAddress takerAssetAddress of
       None \<Rightarrow>
         io_return \<lparr>success = False, txHash = None,
                    errorMessage = Some (''Unknown taker asset: '' @ takerAssetAddress)\<rparr>
     | Some takerToken \<Rightarrow>
         io_bind (validateSufficientBalance (tokenAddress takerToken) takerAccount takingAmt) (\<lambda>chk.
         if \<not> sufficient chk
         then io_return \<lparr>success = False, txHash = None,
                         errorMessage = Some (''Insufficient '' @ tokenSymbol takerToken @ '' balance'')\<rparr>
         else
         io_bind (ensureTokenApproval walletClient (tokenAddress takerToken) takerAccount takingAmt) (\<lambda>_.
         io_bind (io_lift (buildFillOrderData order takingAmt)) (\<lambda>fillData.
         io_catch
           (io_bind (\<lambda>w. case request (EstimateGas takerAccount LIMIT_ORDER_PROTOCOL_ADDRESS fillData) w of
                             (Inl e, w') \<Rightarrow> (Inl e, w')
                           | (Inr _, w') \<Rightarrow>
                               (Inr (int (gasEstimateOf w takerAccount LIMIT_ORDER_PROTOCOL_ADDRESS fillData)), w'))
              (\<lambda>gasEstimate.
            let tx = SendTransaction takerAccount LIMIT_ORDER_PROTOCOL_ADDRESS fillData
                       (gasEstimate + bigintDiv gasEstimate 10)
            in
            io_bind (\<lambda>w. case request tx w of
                             (Inl e, w') \<Rightarrow> (Inl e, w')
                           | (Inr _, w') \<Rightarrow> (Inr (txHashOf w tx), w')) (\<lambda>h.
            io_bind (waitForTransactionReceipt h) (\<lambda>status.
            if status = Success
            then io_return \<lparr>success = True, txHash = Some h, errorMessage = None\<rparr>
            else io_return \<lparr>success = False, txHash = Some h,
                            errorMessage = Some ''Transaction reverted''\<rparr>))))
           (\<lambda>e. io_return \<lparr>success = False, txHash = None, errorMessage = Some (errorText e)\<rparr>)))))))"

section \<open>Decoding a revert (test/fill.ts, lib/abi.ts)\<close>

datatype abi_type = Uint256 | StringType

datatype abi_item =
    AbiFunction string
  | AbiError string "abi_type list"

definition LIMIT_ORDER_PROTOCOL_ABI :: "abi_item list" where
  "LIMIT_ORDER_PROTOCOL_ABI =
     [AbiFunction ''fillOrder'',
      AbiFunction ''remainingInvalidatorForOrder'',
      AbiError ''BadSignature'' [],
      AbiError ''OrderExpired'' [],
      AbiError ''InvalidatedOrder'' [],
      AbiError ''TakingAmountExceeded'' [],
      AbiError ''MakingAmountTooLow'' [],
      AbiError ''PrivateOrder'' [],
      AbiError ''PredicateIsNotTrue'' [],
      AbiError ''TransferFromMakerToTakerFailed'' [],
      AbiError ''TransferFromTakerToMakerFailed'' []]"

text \<open>The two errors of Solidity itself, which viem's \<open>decodeErrorResult\<close> adds to the ABI
  it is given.\<close>

definition solidityError :: abi_item where
  "solidityError = AbiError ''Error'' [StringType]"

definition solidityPanic :: abi_item where
  "solidityPanic = AbiError ''Panic'' [Uint256]"

fun abiTypeName :: "abi_type \<Rightarrow> string" where
  "abiTypeName Uint256 = ''uint256''"
| "abiTypeName StringType = ''string''"

fun joinWith :: "string \<Rightarrow> string list \<Rightarrow> string" where
  "joinWith sep [] = []"
| "joinWith sep [x] = x"
| "joinWith sep (x # y # ys) = x @ sep @ joinWith sep (y # ys)"

text \<open>The signature of an error, \<open>Name(type,...)\<close>.\<close>

fun formatAbiItem :: "abi_item \<Rightarrow> string" where
  "formatAbiItem (AbiError name inputs) = name @ ''('' @ joinWith '','' (map abiTypeName inputs) @ '')''"
| "formatAbiItem (AbiFunction name) = name"

text \<open>
  The selector of a signature is the first four bytes of its Keccak-256 hash. The hash is
  not computed here: these are the selectors of the eleven error signatures that
  \<open>decodeErrorResult\<close> compares.
\<close>

definition toFunctionSelector :: "string \<Rightarrow> string option" where
  "toFunctionSelector sg = map_of
     [(''BadSignature()'', ''0x5cd5d233''),
      (''OrderExpired()'', ''0xc56873ba''),
      (''InvalidatedOrder()'', ''0xf71fbda2''),
      (''TakingAmountExceeded()'', ''0x7f902a93''),
      (''MakingAmountTooLow()'', ''0x481ea392''),
      (''PrivateOrder()'', ''0xd4dfdafe''),
      (''PredicateIsNotTrue()'', ''0xb6629c02''),
      (''TransferFromMakerToTakerFailed()'', ''0x70a03f48''),
      (''TransferFromTakerToMakerFailed()'', ''0x478a5205''),
      (''Error(string)'', ''0x08c379a0''),
      (''Panic(uint256)'', ''0x4e487b71'')] sg"

text \<open>
  The arguments of an error, as \<open>String\<close> prints them. A \<open>uint256\<close> is the first 32
  bytes of the data, which must be hexadecimal (an odd number of digits gets a leading
  zero) and at least 32 bytes long. The decoding of a \<open>string\<close> argument is left to the
  parameter \<open>decodeString\<close>.
\<close>

definition decodeAbiParameters ::
    "(string \<Rightarrow> error + string) \<Rightarrow> abi_type list \<Rightarrow> string \<Rightarrow> error + string list" where
  "decodeAbiParameters decodeString inputs payload =
     (case inputs of
        [] \<Rightarrow> Inr []
      | [Uint256] \<Rightarrow>
          (let h = (if odd (length payload) then CHR ''0'' # payload else payload)
           in if list_all isHexDigit h \<and> 64 \<le> length h
              then Inr [toString 10 (int (digitsValue 16 (take 64 h)))]
              else Inl AbiDecodingFailed)
      | [StringType] \<Rightarrow> map_sum id (\<lambda>s. [s]) (decodeString payload)
      | _ \<Rightarrow> Inl AbiDecodingFailed)"

fun isAbiError :: "abi_item \<Rightarrow> bool" where
  "isAbiError (AbiError _ _) = True"
| "isAbiError (AbiFunction _) = False"

fun abiInputs :: "abi_item \<Rightarrow> abi_type list" where
  "abiInputs (AbiError _ inputs) = inputs"
| "abiInputs (AbiFunction _) = []"

fun abiName :: "abi_item \<Rightarrow> string" where
  "abiName (AbiError name _) = name"
| "abiName (AbiFunction name) = name"

text \<open>
  \<open>decodeErrorResult\<close> of viem: the selector is the first four bytes of the data; the
  first error of the ABI, extended by the two Solidity errors, with that selector is the
  decoded one, and its arguments are decoded from the rest of the data when it has inputs
  (data of four bytes or less has no rest, and the decoding raises).
\<close>

definition decodeErrorResult ::
    "(string \<Rightarrow> error + string) \<Rightarrow> abi_item list \<Rightarrow> string \<Rightarrow> error + (string \<times> string list option)" where
  "decodeErrorResult decodeString abi errData =
     (let selector = (if startsWith ''0x'' errData then ''0x'' @ slice 0 8 (drop 2 errData)
                      else take 4 errData)
      in if selector = ''0x'' then Inl AbiDecodingZeroData
         else
           case find (\<lambda>x. isAbiError x \<and> toFunctionSelector (formatAbiItem x) = Some selector)
                  (abi @ [solidityError, solidityPanic]) of
             None \<Rightarrow> Inl (AbiErrorSignatureNotFound selector)
           | Some item \<Rightarrow>
               if abiInputs item \<noteq> []
               then if drop 10 errData = [] then Inl AbiDecodingFailed
                    else bindE (decodeAbiParameters decodeString (abiInputs item) (drop 10 errData))
                           (\<lambda>args. Inr (abiName item, Some args))
               else Inr (abiName item, None))"

definition decodeRevertError :: "(string \<Rightarrow> error + string) \<Rightarrow> string option \<Rightarrow> string" where
  "decodeRevertError decodeString errorData =
     (case errorData of
        None \<Rightarrow> ''Unknown error (no revert data)''
      | Some errData \<Rightarrow>
          if errData = [] \<or> errData = ''0x'' then ''Unknown error (no revert data)''
          else
            case decodeErrorResult decodeString LIMIT_ORDER_PROTOCOL_ABI errData of
              Inr (errorName, args) \<Rightarrow>
                (case args of
                   Some (a # as) \<Rightarrow> errorName @ ''('' @ joinWith '', '' (a # as) @ '')''
                 | _ \<Rightarrow> errorName @ ''()'')
            | Inl _ \<Rightarrow>
                (let selector = slice 0 10 errData
                 in ''Unknown error with selector '' @ selector))"

text \<open>Whether a string occurs in another.\<close>

definition stringIncludes :: "string \<Rightarrow> string \<Rightarrow> bool" where
  "stringIncludes s p = list_ex (\<lambda>i. take (length p) (drop i s) = p) [0..<Suc (length s)]"

text \<open>The selectors of the errors of an ABI.\<close>

definition errorSelectors :: "abi_item list \<Rightarrow> string list" where
  "errorSelectors abi = List.map_filter (\<lambda>x. if isAbiError x then toFunctionSelector (formatAbiItem x) else None) abi"

section \<open>A world to run the scripts in\<close>

text \<open>
  A maker with 1000 USDC and 1000 BRLA and no allowance, a network on which every request
  succeeds and every transaction is mined with success, and an SDK that draws the salt 255.
\<close>

definition testSdk :: Sdk where
  "testSdk = \<lparr>clockMs = 1700000000000, randomNonce = 7, sdkSalt = 255,
               sdkMakerTraits = (\<lambda>expiration nonce. expiration * 2 ^ 80 + nonce * 2 ^ 120)\<rparr>"

definition testSignature :: string where
  "testSignature = ''0x'' @ replicate 64 CHR ''1'' @ replicate 63 CHR ''0'' @ ''71c''"

definition testWorld :: World where
  "testWorld =
     \<lparr>chainBalance = (\<lambda>t o'. if t = tokenAddress USDC then 1000000000 else 1000 * 10 ^ 18),
      chainAllowance = (\<lambda>t o' s. 0),
      rpcFailure = (\<lambda>ev. None),
      txHashOf = (\<lambda>ev. ''0xfeed''),
      txStatusOf = (\<lambda>h. Success),
      gasEstimateOf = (\<lambda>sender target d. 210005),
      signatureOf = (\<lambda>acct order. testSignature),
      quoteReply = (\<lambda>a. QuoteHttpOk ''100000000'' ''500000000000000000000'' ''5.0''),
      privateKeyToAccount = (\<lambda>k. Inr ''0xA11ce''),
      parseUnits = (\<lambda>s d. Inr 100000000),
      sdkOf = testSdk,
      trace = []\<rparr>"

definition testParams :: OrderParams where
  "testParams = \<lparr>makerAsset = tokenAddress USDC, takerAsset = tokenAddress BRLA,
                  makingAmount = 100000000, takingAmount = 500000000000000000000,
                  maker = ''0xA11ce'', receiver = None, expirationMinutes = Some 60\<rparr>"

text \<open>The requests a run has added to the trace.\<close>

definition newEvents :: "World \<Rightarrow> World \<Rightarrow> event list" where
  "newEvents w w' = drop (length (trace w)) (trace w')"

fun isWriteApprove :: "event \<Rightarrow> bool" where
  "isWriteApprove (WriteApprove _ _ _ _) = True"
| "isWriteApprove _ = False"

text \<open>A sequence of later calls of \<open>ensureTokenApproval\<close> for one token and owner, each with
  its own wallet client and required amount; the results are dropped.\<close>

fun ensureTokenApprovals :: "address \<Rightarrow> address \<Rightarrow> (WalletClient \<times> bigint) list \<Rightarrow> World \<Rightarrow> World" where
  "ensureTokenApprovals tokenAddr owner [] w = w"
| "ensureTokenApprovals tokenAddr owner ((wc, required) # calls) w =
     ensureTokenApprovals tokenAddr owner calls (snd (ensureTokenApproval wc tokenAddr owner required w))"

text \<open>The order of the test maker, as the generator prints it.\<close>

definition testOrder :: OrderOutput where
  "testOrder =
     \<lparr>out_orderHash = ''0x'' @ replicate 62 CHR ''0'' @ ''ff'',
      out_signature = testSignature,
      out_order =
        \<lparr>o_salt = ''255'',
         o_maker = ''0xA11ce'',
         o_receiver = ''0xA11ce'',
         o_makerAsset = tokenAddress USDC,
         o_takerAsset = tokenAddress BRLA,
         o_makingAmount = ''100000000'',
         o_takingAmount = ''500000000000000000000'',
         o_makerTraits = ''0''\<rparr>\<rparr>"

section \<open>Properties of the string and number functions\<close>

lemma digitValue_digitChar: "d < 16 \<Longrightarrow> digitValue (digitChar d) = d"
  by (auto simp: digitValue_def digitChar_def Let_def)

lemma isHexDigit_digitChar: "d < 16 \<Longrightarrow> isHexDigit (digitChar d)"
  by (auto simp: isHexDigit_def digitChar_def Let_def)

lemma isRadixDigit_digitChar: "d < b \<Longrightarrow> b \<le> 16 \<Longrightarrow> isRadixDigit b (digitChar d)"
  by (simp add: isRadixDigit_def isHexDigit_digitChar digitValue_digitChar)

lemma digitsValue_snoc: "digitsValue b (xs @ [c]) = digitsValue b xs * b + digitValue c"
  by (simp add: digitsValue_def)

lemma digitsValue_Nil: "digitsValue b [] = 0"
  by (simp add: digitsValue_def)

lemma mod_radix_less: "2 \<le> b \<Longrightarrow> b \<le> 16 \<Longrightarrow> (n::nat) mod b < 16"
  by (metis Suc_1 le_Suc_ex mod_less_divisor trans_less_add1 zero_less_Suc)

lemma digitsValue_natToString: "2 \<le> b \<Longrightarrow> b \<le> 16 \<Longrightarrow> digitsValue b (natToString b n) = n"
proof (induction b n rule: natToString.induct)
  case (1 b n)
  show ?case
  proof (cases "n < b")
    case True
    with 1 show ?thesis
      by (subst natToString.simps) (simp add: digitsValue_def digitValue_digitChar)
  next
    case False
    with 1 show ?thesis
      by (subst natToString.simps) (simp add: digitsValue_snoc digitValue_digitChar mod_radix_less)
  qed
qed

lemma natToString_digits: "2 \<le> b \<Longrightarrow> b \<le> 16 \<Longrightarrow> list_all (isRadixDigit b) (natToString b n)"
proof (induction b n rule: natToString.induct)
  case (1 b n)
  show ?case
  proof (cases "n < b")
    case True
    with 1 show ?thesis
      by (subst natToString.simps) (simp add: isRadixDigit_digitChar)
  next
    case False
    with 1 show ?thesis
      by (subst natToString.simps) (simp add: isRadixDigit_digitChar)
  qed
qed

lemma natToString_nonempty: "natToString b n \<noteq> []"
  by (subst natToString.simps) simp

lemma natToString_length: "2 \<le> b \<Longrightarrow> n < b ^ k \<Longrightarrow> 0 < k \<Longrightarrow> length (natToString b n) \<le> k"
proof (induction b n arbitrary: k rule: natToString.induct)
  case (1 b n)
  show ?case
  proof (cases "n < b")
    case True
    with 1 show ?thesis
      by (subst natToString.simps) simp
  next
    case False
    obtain j where k: "k = Suc j" using 1(4) by (cases k) auto
    have j0: "0 < j" using False 1(3) k by (cases j) auto
    have "n div b < b ^ j" using 1(3) k
      by (simp add: less_mult_imp_div_less mult.commute)
    with 1(1)[of j] False 1(2) j0 have "length (natToString b (n div b)) \<le> j" by simp
    with False 1(2) k show ?thesis
      by (subst natToString.simps) simp
  qed
qed

lemma digitsValue_replicate0: "digitsValue b (replicate k CHR ''0'' @ s) = digitsValue b s"
proof -
  have "foldl (\<lambda>acc c. acc * b + digitValue c) 0 (replicate k CHR ''0'') = 0"
    by (induction k) (simp_all add: digitValue_def)
  then show ?thesis by (simp add: digitsValue_def)
qed

lemma digitsValue_padStart: "digitsValue b (padStart n CHR ''0'' s) = digitsValue b s"
  by (simp add: padStart_def digitsValue_replicate0)

lemma digitsValue_bound: "list_all (isRadixDigit b) s \<Longrightarrow> digitsValue b s < b ^ length s"
proof (induction s rule: rev_induct)
  case Nil
  then show ?case by (simp add: digitsValue_Nil)
next
  case (snoc c s)
  then have "digitsValue b s < b ^ length s" and c: "digitValue c < b"
    by (simp_all add: isRadixDigit_def)
  then have "digitsValue b s + 1 \<le> b ^ length s" by simp
  then have "(digitsValue b s + 1) * b \<le> b ^ length s * b" by (rule mult_le_mono1)
  moreover have "digitsValue b s * b + digitValue c < (digitsValue b s + 1) * b" using c by simp
  ultimately have "digitsValue b s * b + digitValue c < b ^ length s * b" by (rule less_le_trans [rotated])
  then show ?case by (simp add: digitsValue_snoc mult.commute)
qed

lemma or_bit255: "(x::int) OR push_bit 255 1 = (if bit x 255 then x else x + 2 ^ 255)"
proof -
  have "x OR push_bit 255 1 = set_bit 255 x" by (rule set_bit_eq_or [symmetric])
  also have "\<dots> = x + of_bool (\<not> bit x 255) * 2 ^ 255" by (rule set_bit_eq)
  finally show ?thesis by (simp only: of_bool_def split: if_split) simp
qed

lemma isHexDigit_not_ws: "isHexDigit c \<Longrightarrow> \<not> isWhiteSpace c"
  by (auto simp: isHexDigit_def isWhiteSpace_def Let_def)

lemma trimString_id: "s \<noteq> [] \<Longrightarrow> \<not> isWhiteSpace (hd s) \<Longrightarrow> \<not> isWhiteSpace (last s) \<Longrightarrow> trimString s = s"
proof -
  assume a: "s \<noteq> []" "\<not> isWhiteSpace (hd s)" "\<not> isWhiteSpace (last s)"
  then have "dropWhile isWhiteSpace s = s" by (cases s) auto
  moreover have "dropWhile isWhiteSpace (rev s) = rev s" using a by (cases "rev s") (auto simp: hd_rev)
  ultimately show ?thesis by (simp add: trimString_def)
qed

lemma digitValue_less16: "digitValue c < 16"
  by (auto simp: digitValue_def Let_def)

lemma isHex_isRadix16: "isRadixDigit 16 c = isHexDigit c"
  by (simp add: isRadixDigit_def digitValue_less16)

lemma isRadix10_isDigit: "isRadixDigit 10 c = isDigit c"
  by (auto simp: isRadixDigit_def isDigit_def isHexDigit_def digitValue_def Let_def)

lemma digitsValue_append: "digitsValue b (xs @ ys) = digitsValue b xs * b ^ length ys + digitsValue b ys"
proof (induction ys rule: rev_induct)
  case Nil
  then show ?case by (simp add: digitsValue_Nil)
next
  case (snoc y ys)
  have "digitsValue b (xs @ ys @ [y]) = digitsValue b ((xs @ ys) @ [y])" by simp
  also have "\<dots> = digitsValue b (xs @ ys) * b + digitValue y" by (rule digitsValue_snoc)
  finally show ?case using snoc by (simp add: digitsValue_snoc algebra_simps)
qed

lemma takeWhile_zero_replicate:
  "takeWhile (\<lambda>c. c = CHR ''0'') xs = replicate (length (takeWhile (\<lambda>c. c = CHR ''0'') xs)) CHR ''0''"
  by (induction xs) auto

lemma stripTrailingZeros_pad:
  "stripTrailingZeros p @ replicate (length p - length (stripTrailingZeros p)) CHR ''0'' = p"
proof -
  let ?z = "\<lambda>c. c = CHR ''0''"
  let ?k = "length (takeWhile ?z (rev p))"
  have split: "rev p = takeWhile ?z (rev p) @ dropWhile ?z (rev p)" by simp
  have "length (rev p) = ?k + length (dropWhile ?z (rev p))"
    by (subst split) (simp only: length_append)
  then have len: "length p - length (rev (dropWhile ?z (rev p))) = ?k"
    by simp
  have "p = rev (rev p)" by simp
  also have "\<dots> = rev (takeWhile ?z (rev p) @ dropWhile ?z (rev p))" by (subst split) (rule refl)
  also have "\<dots> = rev (dropWhile ?z (rev p)) @ rev (takeWhile ?z (rev p))" by (rule rev_append)
  also have "rev (takeWhile ?z (rev p)) = replicate ?k CHR ''0''"
    by (subst takeWhile_zero_replicate) (simp only: rev_replicate)
  finally have "rev (dropWhile ?z (rev p)) @ replicate ?k CHR ''0'' = p" by (rule sym)
  then show ?thesis unfolding stripTrailingZeros_def len .
qed

lemma stripTrailingZeros_last: "stripTrailingZeros p \<noteq> [] \<Longrightarrow> last (stripTrailingZeros p) \<noteq> CHR ''0''"
  unfolding stripTrailingZeros_def
  by (metis (mono_tags, lifting) hd_dropWhile last_rev rev_is_Nil_conv)

lemma stripTrailingZeros_length: "length (stripTrailingZeros p) \<le> length p"
  unfolding stripTrailingZeros_def
  by (metis length_dropWhile_le length_rev)

lemma stripTrailingZeros_all: "list_all P p \<Longrightarrow> list_all P (stripTrailingZeros p)"
  unfolding stripTrailingZeros_def list_all_iff
  by (metis set_dropWhileD set_rev)


lemma toString_nonneg: "0 \<le> i \<Longrightarrow> toString b i = natToString b (nat i)"
  by (simp add: toString_def)

lemma bigintDiv_nonneg: "0 \<le> a \<Longrightarrow> 0 < b \<Longrightarrow> bigintDiv a b = a div b"
  by (cases "a = 0") (simp_all add: bigintDiv_def)

lemma bigintMod_nonneg: "0 \<le> a \<Longrightarrow> 0 < b \<Longrightarrow> bigintMod a b = a mod b"
  by (simp add: bigintMod_def bigintDiv_nonneg minus_div_mult_eq_mod)

lemma natToString10_no_dot: "CHR ''.'' \<notin> set (natToString 10 n)"
proof -
  have "list_all (isRadixDigit 10) (natToString 10 n)" by (rule natToString_digits) simp_all
  moreover have "\<not> isRadixDigit 10 CHR ''.''" by (simp add: isRadixDigit_def isHexDigit_def)
  ultimately show ?thesis by (auto simp: list_all_iff)
qed

lemma digitChar_0: "digitChar 0 = CHR ''0''"
  by code_simp

lemma takeWhile_notin: "c \<notin> set w \<Longrightarrow> takeWhile (\<lambda>x. x \<noteq> c) (w @ ys) = w @ takeWhile (\<lambda>x. x \<noteq> c) ys"
  by (induction w) auto

lemma dropWhile_notin: "c \<notin> set w \<Longrightarrow> dropWhile (\<lambda>x. x \<noteq> c) (w @ ys) = dropWhile (\<lambda>x. x \<noteq> c) ys"
  by (induction w) auto

text \<open>The fraction string of a non-negative amount.\<close>

lemma fraction_string:
  assumes "f < 10 ^ d"
  defines "p \<equiv> padStart d CHR ''0'' (natToString 10 f)"
  shows "list_all isDigit (stripTrailingZeros p)"
    and "length (stripTrailingZeros p) \<le> d"
    and "digitsValue 10 (padEnd d CHR ''0'' (stripTrailingZeros p)) = f"
proof -
  have digs: "list_all (isRadixDigit 10) (natToString 10 f)" by (rule natToString_digits) simp_all
  have "isDigit CHR ''0''" by (simp add: isDigit_def)
  then have "list_all isDigit p"
    using digs by (auto simp: p_def padStart_def isRadix10_isDigit list_all_iff)
  then show "list_all isDigit (stripTrailingZeros p)" by (rule stripTrailingZeros_all)
  have both: "length (stripTrailingZeros p) \<le> d
      \<and> digitsValue 10 (padEnd d CHR ''0'' (stripTrailingZeros p)) = f"
  proof (cases "d = 0")
    case True
    then have "f = 0" using assms(1) by simp
    then have "p = ''0''" using True by (simp add: p_def padStart_def natToString.simps digitChar_0)
    then have s: "stripTrailingZeros p = []" by (simp add: stripTrailingZeros_def)
    then show ?thesis using True \<open>f = 0\<close> by (simp add: padEnd_def digitsValue_Nil)
  next
    case False
    then have "length (natToString 10 f) \<le> d" using assms(1) by (intro natToString_length) simp_all
    then have lp: "length p = d" by (simp add: p_def padStart_def)
    have l: "length (stripTrailingZeros p) \<le> d" using stripTrailingZeros_length [of p] lp by simp
    have "padEnd d CHR ''0'' (stripTrailingZeros p) = p"
      using stripTrailingZeros_pad [of p] lp by (simp add: padEnd_def)
    moreover have "digitsValue 10 p = f"
      by (simp add: p_def digitsValue_padStart digitsValue_natToString)
    ultimately show ?thesis using l by simp
  qed
  from both show "length (stripTrailingZeros p) \<le> d" by simp
  from both show "digitsValue 10 (padEnd d CHR ''0'' (stripTrailingZeros p)) = f" by simp
qed

text \<open>
  Claim C4. For a non-negative amount and any number of decimals, the output of
  \<open>formatTokenAmount\<close> is the whole part, followed by a point and a fraction only when
  the fraction is not zero; the fraction has at most \<open>decimals\<close> digits and never ends in
  \<open>0\<close>; and reading the output back with the same decimals gives the amount again.
\<close>

theorem formatTokenAmount_roundtrip:
  assumes "0 \<le> amount"
  shows "\<exists>w f. formatTokenAmount amount decimals None = w @ (if f = [] then [] else CHR ''.'' # f)
           \<and> w \<noteq> [] \<and> list_all isDigit w \<and> list_all isDigit f \<and> length f \<le> decimals
           \<and> (f \<noteq> [] \<longrightarrow> last f \<noteq> CHR ''0'')
           \<and> parseTokenAmount decimals (formatTokenAmount amount decimals None) = Some amount"
proof -
  define dv :: int where "dv = 10 ^ decimals"
  define wn where "wn = nat (amount div dv)"
  define fn where "fn = nat (amount mod dv)"
  define w where "w = natToString 10 wn"
  define f where "f = stripTrailingZeros (padStart decimals CHR ''0'' (natToString 10 fn))"
  have dvpos: "0 < dv" by (simp add: dv_def)
  have wnn: "0 \<le> amount div dv" using assms dvpos by (simp add: pos_imp_zdiv_nonneg_iff)
  have fnn: "0 \<le> amount mod dv" using dvpos by simp
  have flt: "fn < 10 ^ decimals"
  proof -
    have "amount mod dv < dv" using dvpos by simp
    then have "int fn < int (10 ^ decimals)" using fnn by (simp add: fn_def dv_def)
    then show ?thesis by (simp only: of_nat_less_iff)
  qed
  have out: "formatTokenAmount amount decimals None = w @ (if f = [] then [] else CHR ''.'' # f)"
    using assms dvpos wnn fnn
    by (simp add: formatTokenAmount_def Let_def bigintDiv_nonneg bigintMod_nonneg toString_nonneg
        dv_def [symmetric] w_def f_def wn_def fn_def)
  have wdig: "list_all isDigit w"
    using natToString_digits [of 10 wn] by (simp add: w_def isRadix10_isDigit list_all_iff)
  have wne: "w \<noteq> []" by (simp add: w_def natToString_nonempty)
  have fdig: "list_all isDigit f" and flen: "length f \<le> decimals"
    and fval: "digitsValue 10 (padEnd decimals CHR ''0'' f) = fn"
    using fraction_string [OF flt] by (simp_all add: f_def)
  have flast: "f \<noteq> [] \<longrightarrow> last f \<noteq> CHR ''0''"
    using stripTrailingZeros_last by (simp add: f_def)
  have nodot: "CHR ''.'' \<notin> set w" by (simp add: w_def natToString10_no_dot)
  have tw: "takeWhile (\<lambda>c. c \<noteq> CHR ''.'') (w @ (if f = [] then [] else CHR ''.'' # f)) = w"
    using nodot by (simp add: takeWhile_notin)
  have dw: "dropWhile (\<lambda>c. c \<noteq> CHR ''.'') (w @ (if f = [] then [] else CHR ''.'' # f))
              = (if f = [] then [] else CHR ''.'' # f)"
    using nodot by (simp add: dropWhile_notin)
  have lpad: "length (padEnd decimals CHR ''0'' f) = decimals" using flen by (simp add: padEnd_def)
  have "digitsValue 10 (w @ padEnd decimals CHR ''0'' f) = wn * 10 ^ decimals + fn"
    by (simp add: digitsValue_append lpad fval w_def digitsValue_natToString)
  moreover have "int (wn * 10 ^ decimals + fn) = amount"
    using wnn fnn by (simp add: wn_def fn_def dv_def [symmetric])
  ultimately have val: "int (digitsValue 10 (w @ padEnd decimals CHR ''0'' f)) = amount" by simp
  have "parseTokenAmount decimals (w @ (if f = [] then [] else CHR ''.'' # f)) = Some amount"
    unfolding parseTokenAmount_def tw dw using wne wdig fdig flen val
    by (cases "f = []") (simp_all add: Let_def)
  with out wne wdig fdig flen flast show ?thesis by (intro exI [of _ w] exI [of _ f]) simp
qed

lemma hex_not_x: "isHexDigit c \<Longrightarrow> c \<noteq> CHR ''x'' \<and> c \<noteq> CHR ''X'' \<and> c \<noteq> CHR ''-'' \<and> c \<noteq> CHR ''+''"
  by (auto simp: isHexDigit_def Let_def)

lemma zero_not_ws: "\<not> isWhiteSpace CHR ''0''"
  by (simp add: isWhiteSpace_def)

lemma isRadixDigit16: "isRadixDigit 16 = isHexDigit"
  by (rule ext) (rule isHex_isRadix16)

lemma BigInt_0x_hex:
  assumes "s \<noteq> []" and "list_all isHexDigit s"
  shows "BigInt (''0x'' @ s) = Inr (int (digitsValue 16 s))"
proof -
  have "isHexDigit (last s)" using assms by (simp add: list_all_iff)
  then have "\<not> isWhiteSpace (last (''0x'' @ s))" using assms(1) by (simp add: isHexDigit_not_ws)
  then have "trimString (''0x'' @ s) = ''0x'' @ s"
    by (intro trimString_id) (simp_all add: zero_not_ws)
  then show ?thesis using assms by (simp add: BigInt_def parseDigits_def isRadixDigit16)
qed

lemma parseInt16_hex2:
  assumes "isHexDigit a" and "isHexDigit b"
  shows "parseInt16 [a, b] = Some (int (digitsValue 16 [a, b]))"
  using assms hex_not_x [of a] hex_not_x [of b] isHexDigit_not_ws [of a]
  by (simp add: parseInt16_def Let_def)

lemma strip_prefix_hex:
  assumes "length sig = 130" and "list_all isHexDigit sig" and "signature = sig \<or> signature = ''0x'' @ sig"
  shows "(if startsWith ''0x'' signature then drop 2 signature else signature) = sig"
proof -
  obtain a b r where sig: "sig = a # b # r"
    using assms(1) by (cases sig, simp, rename_tac a t, case_tac t, auto)
  then have "isHexDigit b" using assms(2) by simp
  then have "b \<noteq> CHR ''x''" using hex_not_x by blast
  then have "\<not> startsWith ''0x'' sig" using sig by (simp add: startsWith_def)
  moreover have "startsWith ''0x'' (''0x'' @ sig)" by (simp add: startsWith_def)
  ultimately show ?thesis using assms(3) by auto
qed

lemma sigS_bound: "list_all isHexDigit sig \<Longrightarrow> sigS sig < 2 ^ 256"
proof -
  assume h: "list_all isHexDigit sig"
  let ?s = "take 64 (drop 64 sig)"
  have "list_all (isRadixDigit 16) ?s"
    using h by (auto simp: isRadixDigit16 list_all_iff dest: in_set_takeD in_set_dropD)
  then have "digitsValue 16 ?s < 16 ^ length ?s" by (rule digitsValue_bound)
  also have "(16::nat) ^ length ?s \<le> 16 ^ 64" by (intro power_increasing) simp_all
  also have "(16::nat) ^ 64 = 2 ^ 256" by simp
  finally show ?thesis by (simp add: sigS_def)
qed

lemma bit255_iff: "0 \<le> (x::int) \<Longrightarrow> x < 2 ^ 256 \<Longrightarrow> bit x 255 \<longleftrightarrow> 2 ^ 255 \<le> x"
proof -
  assume a: "0 \<le> x" "x < 2 ^ 256"
  have d: "x div 2 ^ 255 < 2" using a by (simp add: div_less_iff_less_mult flip: power_Suc)
  have "bit x 255 \<longleftrightarrow> odd (x div 2 ^ 255)" by (simp only: bit_iff_odd)
  also have "\<dots> \<longleftrightarrow> x div 2 ^ 255 = 1"
  proof -
    have "0 \<le> x div 2 ^ 255" using a by (simp add: pos_imp_zdiv_nonneg_iff)
    then have "x div 2 ^ 255 = 0 \<or> x div 2 ^ 255 = 1" using d by linarith
    then show ?thesis by auto
  qed
  also have "\<dots> \<longleftrightarrow> 2 ^ 255 \<le> x"
  proof
    assume "x div 2 ^ 255 = 1"
    then show "2 ^ 255 \<le> x" by (smt (verit) div_pos_pos_trivial a(1))
  next
    assume "2 ^ 255 \<le> x"
    then have "1 \<le> x div 2 ^ 255" by (simp add: pos_imp_zdiv_pos_iff)
    then show "x div 2 ^ 255 = 1" using d by linarith
  qed
  finally show ?thesis .
qed


lemma vsValue_bound:
  assumes "list_all isHexDigit sig"
  shows "0 \<le> (if sigV sig = 28 then int (sigS sig) OR push_bit 255 1 else int (sigS sig))"
    and "(if sigV sig = 28 then int (sigS sig) OR push_bit 255 1 else int (sigS sig)) < 2 ^ 256"
proof -
  have b: "int (sigS sig) < 2 ^ 256" using sigS_bound [OF assms] by (simp flip: of_nat_less_iff)
  have nb: "\<not> bit (int (sigS sig)) 255 \<Longrightarrow> int (sigS sig) < 2 ^ 255"
    using bit255_iff [of "int (sigS sig)"] b by simp
  show "0 \<le> (if sigV sig = 28 then int (sigS sig) OR push_bit 255 1 else int (sigS sig))"
    by (simp only: or_bit255 split: if_split) simp
  show "(if sigV sig = 28 then int (sigS sig) OR push_bit 255 1 else int (sigS sig)) < 2 ^ 256"
    using b nb by (simp only: or_bit255 split: if_split) auto
qed

lemma parseSignatureToCompact_hex:
  assumes len: "length sig = 130" and hex: "list_all isHexDigit sig"
    and inp: "signature = sig \<or> signature = ''0x'' @ sig"
  shows "parseSignatureToCompact signature =
           Inr (''0x'' @ take 64 sig,
                ''0x'' @ padStart 64 CHR ''0'' (natToString 16 (nat
                  (if sigV sig = 28 then int (sigS sig) OR push_bit 255 1 else int (sigS sig)))))"
proof -
  let ?s = "take 64 (drop 64 sig)"
  have strip: "(if startsWith ''0x'' signature then drop 2 signature else signature) = sig"
    by (rule strip_prefix_hex [OF len hex inp])
  have sne: "?s \<noteq> []" using len by auto
  have shex: "list_all isHexDigit ?s"
    using hex by (auto simp: list_all_iff dest: in_set_takeD in_set_dropD)
  have big: "BigInt (''0x'' @ ?s) = Inr (int (sigS sig))"
    using BigInt_0x_hex [OF sne shex] by (simp add: sigS_def)
  have "length (drop 128 sig) = 2" using len by simp
  then obtain a b where ab: "drop 128 sig = [a, b]"
    by (cases "drop 128 sig", simp, rename_tac x t, case_tac t, auto)
  have "list_all isHexDigit (drop 128 sig)"
    using hex by (auto simp: list_all_iff dest: in_set_dropD)
  then have "isHexDigit a" "isHexDigit b" using ab by simp_all
  then have v: "parseInt16 (drop 128 sig) = Some (int (sigV sig))"
    using parseInt16_hex2 [of a b] ab by (simp add: sigV_def)
  have sl: "slice 0 64 sig = take 64 sig" "slice 64 128 sig = ?s" "slice 128 130 sig = drop 128 sig"
    using len by (simp_all add: slice_def)
  have nn: "0 \<le> (if sigV sig = 28 then int (sigS sig) OR push_bit 255 1 else int (sigS sig))"
    by (rule vsValue_bound [OF hex])
  have v28: "(Some (int (sigV sig)) = Some 28) = (sigV sig = 28)" by auto
  show ?thesis
    unfolding parseSignatureToCompact_def strip Let_def sl big v v28
    using len nn by (simp only: toString_nonneg [OF nn] sum.case if_False simp_thms)
qed

text \<open>
  Claim C1, as amended. A signature of 130 hexadecimal characters, with or without the
  \<open>0x\<close> prefix, is accepted; \<open>r\<close> is the first 32 bytes; \<open>vs\<close> is a 32-byte value
  equal to \<open>s OR (1 << 255)\<close> when the last byte is 28 and to \<open>s\<close> otherwise. When the
  last byte is 27 or 28 and \<open>s\<close> is below \<open>2 ^ 255\<close>, \<open>s\<close> and \<open>v\<close> are recovered
  from \<open>vs\<close>: \<open>s\<close> is its low 255 bits and \<open>v\<close> is 27 plus its top bit.
\<close>

theorem parseSignatureToCompact_compact:
  assumes len: "length sig = 130" and hex: "list_all isHexDigit sig"
    and inp: "signature = sig \<or> signature = ''0x'' @ sig"
  shows "\<exists>r vs. parseSignatureToCompact signature = Inr (r, vs)
     \<and> r = ''0x'' @ take 64 sig \<and> digitsValue 16 (drop 2 r) = sigR sig
     \<and> length vs = 66 \<and> take 2 vs = ''0x'' \<and> list_all isHexDigit (drop 2 vs)
     \<and> int (digitsValue 16 (drop 2 vs))
           = (if sigV sig = 28 then int (sigS sig) OR push_bit 255 1 else int (sigS sig))
     \<and> ((sigV sig = 27 \<or> sigV sig = 28) \<and> sigS sig < 2 ^ 255 \<longrightarrow>
           sigS sig = digitsValue 16 (drop 2 vs) mod 2 ^ 255
           \<and> sigV sig = 27 + digitsValue 16 (drop 2 vs) div 2 ^ 255)"
proof -
  define x where "x = (if sigV sig = 28 then int (sigS sig) OR push_bit 255 1 else int (sigS sig))"
  define ds where "ds = padStart 64 CHR ''0'' (natToString 16 (nat x))"
  have res: "parseSignatureToCompact signature = Inr (''0x'' @ take 64 sig, ''0x'' @ ds)"
    using parseSignatureToCompact_hex [OF len hex inp] by (simp add: ds_def x_def)
  have x0: "0 \<le> x" and x256: "x < 2 ^ 256"
    using vsValue_bound [OF hex] by (simp_all add: x_def)
  have "nat x < 16 ^ 64" using x0 x256 by (simp add: nat_less_iff)
  then have "length (natToString 16 (nat x)) \<le> 64" by (intro natToString_length) simp_all
  then have lds: "length ds = 64" by (simp add: ds_def padStart_def)
  have dsval: "digitsValue 16 ds = nat x"
    by (simp add: ds_def digitsValue_padStart digitsValue_natToString)
  have dshex: "list_all isHexDigit ds"
  proof -
    have "list_all (isRadixDigit 16) (natToString 16 (nat x))" by (rule natToString_digits) simp_all
    moreover have "isHexDigit CHR ''0''" by (simp add: isHexDigit_def)
    ultimately show ?thesis by (auto simp: ds_def padStart_def isRadixDigit16 list_all_iff)
  qed
  have recon: "(sigV sig = 27 \<or> sigV sig = 28) \<and> sigS sig < 2 ^ 255 \<longrightarrow>
           sigS sig = nat x mod 2 ^ 255 \<and> sigV sig = 27 + nat x div 2 ^ 255"
  proof (intro impI, elim conjE)
    assume v: "sigV sig = 27 \<or> sigV sig = 28" and s: "sigS sig < 2 ^ 255"
    have si: "int (sigS sig) < 2 ^ 255" using s by (simp flip: of_nat_less_iff)
    have "int (sigS sig) < 2 ^ 256" using sigS_bound [OF hex] by (simp flip: of_nat_less_iff)
    then have nb: "\<not> bit (int (sigS sig)) 255" using bit255_iff [of "int (sigS sig)"] si by simp
    have x28: "sigV sig = 28 \<Longrightarrow> nat x = sigS sig + 2 ^ 255"
      unfolding x_def by (simp only: or_bit255 nb if_True if_False) (simp add: nat_add_distrib nat_power_eq)
    have x27: "sigV sig = 27 \<Longrightarrow> nat x = sigS sig" by (simp add: x_def)
    from v show "sigS sig = nat x mod 2 ^ 255 \<and> sigV sig = 27 + nat x div 2 ^ 255"
    proof
      assume "sigV sig = 27"
      then show ?thesis using x27 s by simp
    next
      assume "sigV sig = 28"
      then show ?thesis using x28 s by simp
    qed
  qed
  define r where "r = ''0x'' @ take 64 sig"
  define vs where "vs = ''0x'' @ ds"
  have d2: "drop 2 vs = ds" "drop 2 r = take 64 sig" by (simp_all add: vs_def r_def)
  have f1: "parseSignatureToCompact signature = Inr (r, vs)" using res by (simp add: r_def vs_def)
  have f2: "r = ''0x'' @ take 64 sig" by (rule r_def)
  have f3: "digitsValue 16 (drop 2 r) = sigR sig" by (simp only: d2 sigR_def)
  have f4: "length vs = 66" using lds by (simp add: vs_def)
  have f5: "take 2 vs = ''0x''" by (simp add: vs_def)
  have f6: "list_all isHexDigit (drop 2 vs)" using dshex by (simp only: d2)
  have f7: "int (digitsValue 16 (drop 2 vs))
           = (if sigV sig = 28 then int (sigS sig) OR push_bit 255 1 else int (sigS sig))"
    using dsval x0 unfolding d2 x_def [symmetric] by simp
  have f8: "(sigV sig = 27 \<or> sigV sig = 28) \<and> sigS sig < 2 ^ 255 \<longrightarrow>
           sigS sig = digitsValue 16 (drop 2 vs) mod 2 ^ 255
           \<and> sigV sig = 27 + digitsValue 16 (drop 2 vs) div 2 ^ 255"
    using recon unfolding d2 dsval .
  from f1 f2 f3 f4 f5 f6 f7 f8 show ?thesis by blast
qed

lemma parseDigits_error: "parseDigits b s = Inl e \<Longrightarrow> e = SyntaxError"
  by (simp add: parseDigits_def split: if_splits)

lemma BigInt_error: "BigInt str = Inl e \<Longrightarrow> e = SyntaxError"
  unfolding BigInt_def Let_def
  by (auto split: if_splits dest: parseDigits_error simp: map_sum_def split: sum.splits)

lemma hexPart_cases: "signature = hexPart signature \<or> signature = ''0x'' @ hexPart signature"
proof (cases "startsWith ''0x'' signature")
  case True
  then have "take 2 signature = ''0x''" by (simp add: startsWith_def numeral_2_eq_2)
  then have "''0x'' @ drop 2 signature = signature" by (metis append_take_drop_id)
  then show ?thesis using True by (simp add: hexPart_def)
next
  case False
  then show ?thesis by (simp add: hexPart_def)
qed

text \<open>
  What \<open>BigInt\<close> does with the \<open>s\<close> part: white space at its end is dropped, and the
  rest must be hexadecimal digits, at least one.
\<close>

lemma trimString_0x: "trimString (''0x'' @ s) = ''0x'' @ rev (dropWhile isWhiteSpace (rev s))"
proof -
  have x: "\<not> isWhiteSpace CHR ''x''" by (simp add: isWhiteSpace_def)
  have "dropWhile isWhiteSpace (rev s @ ''x0'') = dropWhile isWhiteSpace (rev s) @ ''x0''"
  proof (cases "\<forall>c \<in> set (rev s). isWhiteSpace c")
    case True
    then have "dropWhile isWhiteSpace (rev s) = []" by simp
    moreover from True have "dropWhile isWhiteSpace (rev s @ ''x0'') = dropWhile isWhiteSpace ''x0''"
      by (simp only: dropWhile_append2)
    ultimately show ?thesis using x by simp
  next
    case False
    then obtain c where "c \<in> set (rev s)" and "\<not> isWhiteSpace c" by blast
    then show ?thesis by (rule dropWhile_append1)
  qed
  then show ?thesis by (simp add: trimString_def zero_not_ws)
qed

lemma BigInt_0x: "BigInt (''0x'' @ s) = parseDigits 16 (rev (dropWhile isWhiteSpace (rev s)))"
  unfolding BigInt_def trimString_0x Let_def by simp

text \<open>
  Outside the hexadecimal strings: a signature of 130 characters raises the SyntaxError of
  \<open>BigInt\<close> exactly when its \<open>s\<close> part, without the white space at its end, is empty or
  has a character that is no hexadecimal digit.
\<close>

lemma parseSignatureToCompact_SyntaxError:
  "parseSignatureToCompact signature = Inl SyntaxError
     \<longleftrightarrow> length (hexPart signature) = 130
         \<and> (rev (dropWhile isWhiteSpace (rev (slice 64 128 (hexPart signature)))) = []
            \<or> \<not> list_all isHexDigit (rev (dropWhile isWhiteSpace (rev (slice 64 128 (hexPart signature))))))"
  unfolding parseSignatureToCompact_def hexPart_def Let_def BigInt_0x
  by (simp add: parseDigits_def isRadixDigit16)

text \<open>
  Claim C2. For a signature made of hexadecimal digits, with or without the \<open>0x\<close> prefix,
  an error is raised if and only if the length without the prefix is not 130, and the
  error is the length error. For every string, the length error is raised exactly when
  that length is not 130, no other error than the length error and the SyntaxError of
  \<open>BigInt\<close> is raised, and an error produces no pair.
\<close>

theorem parseSignatureToCompact_rejects:
  "(parseSignatureToCompact signature = Inl (InvalidSignatureLength n)
      \<longleftrightarrow> n = length (hexPart signature) \<and> n \<noteq> 130)
   \<and> (list_all isHexDigit (hexPart signature) \<longrightarrow>
        ((\<exists>e. parseSignatureToCompact signature = Inl e) \<longleftrightarrow> length (hexPart signature) \<noteq> 130)
        \<and> (\<forall>e. parseSignatureToCompact signature = Inl e \<longrightarrow>
              e = InvalidSignatureLength (length (hexPart signature))))
   \<and> (\<forall>e. parseSignatureToCompact signature = Inl e \<longrightarrow>
        e = InvalidSignatureLength (length (hexPart signature)) \<or> e = SyntaxError)
   \<and> (\<forall>e. parseSignatureToCompact signature = Inl e \<longrightarrow>
        \<not> (\<exists>r vs. parseSignatureToCompact signature = Inr (r, vs)))"
proof (intro conjI)
  show "parseSignatureToCompact signature = Inl (InvalidSignatureLength n)
      \<longleftrightarrow> n = length (hexPart signature) \<and> n \<noteq> 130"
    unfolding parseSignatureToCompact_def hexPart_def Let_def
    by (auto split: sum.splits dest: BigInt_error)
  show "list_all isHexDigit (hexPart signature) \<longrightarrow>
        ((\<exists>e. parseSignatureToCompact signature = Inl e) \<longleftrightarrow> length (hexPart signature) \<noteq> 130)
        \<and> (\<forall>e. parseSignatureToCompact signature = Inl e \<longrightarrow>
              e = InvalidSignatureLength (length (hexPart signature)))"
  proof
    assume hex: "list_all isHexDigit (hexPart signature)"
    show "((\<exists>e. parseSignatureToCompact signature = Inl e) \<longleftrightarrow> length (hexPart signature) \<noteq> 130)
        \<and> (\<forall>e. parseSignatureToCompact signature = Inl e \<longrightarrow>
              e = InvalidSignatureLength (length (hexPart signature)))"
    proof (cases "length (hexPart signature) = 130")
      case True
      from parseSignatureToCompact_hex [OF True hex hexPart_cases]
      show ?thesis using True by simp
    next
      case False
      then have "parseSignatureToCompact signature = Inl (InvalidSignatureLength (length (hexPart signature)))"
        by (simp add: parseSignatureToCompact_def hexPart_def Let_def)
      then show ?thesis using False by simp
    qed
  qed
  show "\<forall>e. parseSignatureToCompact signature = Inl e \<longrightarrow>
        e = InvalidSignatureLength (length (hexPart signature)) \<or> e = SyntaxError"
    unfolding parseSignatureToCompact_def hexPart_def Let_def
    by (auto split: sum.splits if_splits dest: BigInt_error)
  show "\<forall>e. parseSignatureToCompact signature = Inl e \<longrightarrow>
        \<not> (\<exists>r vs. parseSignatureToCompact signature = Inr (r, vs))"
    by simp
qed

text \<open>A hexadecimal signature of 130 characters is accepted, one of 4 is rejected.\<close>

theorem parseSignatureToCompact_rejects_witness:
  "list_all isHexDigit (hexPart (''0x'' @ replicate 128 CHR ''5'' @ ''1b''))
   \<and> length (hexPart (''0x'' @ replicate 128 CHR ''5'' @ ''1b'')) = 130
   \<and> \<not> (\<exists>e. parseSignatureToCompact (''0x'' @ replicate 128 CHR ''5'' @ ''1b'') = Inl e)
   \<and> list_all isHexDigit (hexPart ''0x1234'')
   \<and> parseSignatureToCompact ''0x1234'' = Inl (InvalidSignatureLength 4)"
proof -
  have h1: "list_all isHexDigit (hexPart (''0x'' @ replicate 128 CHR ''5'' @ ''1b''))" by code_simp
  have l1: "length (hexPart (''0x'' @ replicate 128 CHR ''5'' @ ''1b'')) = 130" by code_simp
  have h2: "list_all isHexDigit (hexPart ''0x1234'')" by code_simp
  have l2: "length (hexPart ''0x1234'') = 4" by code_simp
  from parseSignatureToCompact_rejects [of "''0x'' @ replicate 128 CHR ''5'' @ ''1b''" 0] h1 l1
  have a: "\<not> (\<exists>e. parseSignatureToCompact (''0x'' @ replicate 128 CHR ''5'' @ ''1b'') = Inl e)"
    by blast
  from parseSignatureToCompact_rejects [of "''0x1234''" 4] l2
  have b: "parseSignatureToCompact ''0x1234'' = Inl (InvalidSignatureLength 4)" by simp
  from h1 l1 a h2 b show ?thesis by blast
qed

lemma natToString_small: "n < b \<Longrightarrow> natToString b n = [digitChar n]"
  by (subst natToString.simps) simp

lemma natToString_step:
  "b \<le> n \<Longrightarrow> 2 \<le> b \<Longrightarrow> natToString b n = natToString b (n div b) @ [digitChar (n mod b)]"
  by (subst natToString.simps) simp

lemma digitChar_simps:
  "digitChar 0 = CHR ''0''" "digitChar 1 = CHR ''1''" "digitChar 2 = CHR ''2''" "digitChar 3 = CHR ''3''"
  "digitChar 4 = CHR ''4''" "digitChar 5 = CHR ''5''" "digitChar 6 = CHR ''6''" "digitChar 7 = CHR ''7''"
  "digitChar 8 = CHR ''8''" "digitChar 9 = CHR ''9''" "digitChar 10 = CHR ''a''" "digitChar 11 = CHR ''b''"
  "digitChar 12 = CHR ''c''" "digitChar 13 = CHR ''d''" "digitChar 14 = CHR ''e''" "digitChar 15 = CHR ''f''"
  "digitChar (Suc 0) = CHR ''1''"
  by code_simp+

lemmas natToString_eval = natToString_small natToString_step digitChar_simps

lemma replicate_numeral: "replicate (numeral v) x = x # replicate (pred_numeral v) x"
  by (simp add: numeral_eq_Suc)

text \<open>One million base units at six decimals print as \<open>1\<close>, not \<open>1.000000\<close>.\<close>

theorem formatTokenAmount_roundtrip_witness:
  "(0::int) \<le> 1000000 \<and> formatTokenAmount 1000000 6 None = ''1''
   \<and> parseTokenAmount 6 (formatTokenAmount 1000000 6 None) = Some 1000000"
proof -
  have h: "(0::int) \<le> 1000000" by simp
  have e: "formatTokenAmount 1000000 6 None = ''1''"
    by (simp add: formatTokenAmount_def bigintDiv_def bigintMod_def toString_def padStart_def
        stripTrailingZeros_def natToString_eval)
  from formatTokenAmount_roundtrip [OF h, of 6]
  have "parseTokenAmount 6 (formatTokenAmount 1000000 6 None) = Some 1000000" by blast
  with h e show ?thesis by simp
qed

text \<open>A signature with \<open>s = 7\<close> and \<open>v = 28\<close>.\<close>

theorem parseSignatureToCompact_compact_witness:
  "length (replicate 64 CHR ''1'' @ replicate 63 CHR ''0'' @ ''71c'') = 130
   \<and> list_all isHexDigit (replicate 64 CHR ''1'' @ replicate 63 CHR ''0'' @ ''71c'')
   \<and> sigV (replicate 64 CHR ''1'' @ replicate 63 CHR ''0'' @ ''71c'') = 28
   \<and> sigS (replicate 64 CHR ''1'' @ replicate 63 CHR ''0'' @ ''71c'') = 7
   \<and> (\<exists>r vs. parseSignatureToCompact (''0x'' @ replicate 64 CHR ''1'' @ replicate 63 CHR ''0'' @ ''71c'')
                 = Inr (r, vs)
          \<and> r = ''0x'' @ replicate 64 CHR ''1'' \<and> length vs = 66
          \<and> int (digitsValue 16 (drop 2 vs)) = 7 + 2 ^ 255
          \<and> digitsValue 16 (drop 2 vs) mod 2 ^ 255 = 7
          \<and> 27 + digitsValue 16 (drop 2 vs) div 2 ^ 255 = 28)"
proof -
  let ?sig = "replicate 64 CHR ''1'' @ replicate 63 CHR ''0'' @ ''71c''"
  have l: "length ?sig = 130" by code_simp
  have h: "list_all isHexDigit ?sig" by code_simp
  have v: "sigV ?sig = 28" by code_simp
  have s: "sigS ?sig = 7" by code_simp
  have t: "take 64 ?sig = replicate 64 CHR ''1''" by simp
  have i: "''0x'' @ ?sig = ?sig \<or> ''0x'' @ ?sig = ''0x'' @ ?sig" by simp
  have o: "(7::int) OR push_bit 255 1 = 7 + 2 ^ 255"
    by (simp only: or_bit255) (simp add: bit_iff_odd)
  from parseSignatureToCompact_compact [OF l h i] v s t o l h show ?thesis
    by (simp only: if_True) auto
qed

lemma digitValue_simps:
  "digitValue CHR ''0'' = 0" "digitValue CHR ''1'' = 1" "digitValue CHR ''2'' = 2" "digitValue CHR ''3'' = 3"
  "digitValue CHR ''4'' = 4" "digitValue CHR ''5'' = 5" "digitValue CHR ''6'' = 6" "digitValue CHR ''7'' = 7"
  "digitValue CHR ''8'' = 8" "digitValue CHR ''9'' = 9" "digitValue CHR ''a'' = 10" "digitValue CHR ''b'' = 11"
  "digitValue CHR ''c'' = 12" "digitValue CHR ''d'' = 13" "digitValue CHR ''e'' = 14" "digitValue CHR ''f'' = 15"
  "digitValue CHR ''A'' = 10" "digitValue CHR ''B'' = 11"
  "digitValue CHR ''C'' = 12" "digitValue CHR ''D'' = 13" "digitValue CHR ''E'' = 14" "digitValue CHR ''F'' = 15"
  by (simp_all add: digitValue_def)

lemmas sig_eval = sigS_def sigV_def sigR_def digitsValue_def replicate_numeral digitValue_simps

text \<open>
  Without those two conditions \<open>(r, s, v)\<close> is not determined by \<open>(r, vs)\<close>: the
  signature with \<open>s = 2 ^ 255\<close>, \<open>v = 27\<close> and the one with \<open>s = 0\<close>, \<open>v = 28\<close>
  compact to the same pair, and so do \<open>v = 27\<close> and \<open>v = 0\<close> over the same \<open>s\<close>.
\<close>

theorem parseSignatureToCompact_compact_counterexample:
  "length (replicate 64 CHR ''0'' @ ''8'' @ replicate 63 CHR ''0'' @ ''1b'') = 130
   \<and> list_all isHexDigit (replicate 64 CHR ''0'' @ ''8'' @ replicate 63 CHR ''0'' @ ''1b'')
   \<and> sigS (replicate 64 CHR ''0'' @ ''8'' @ replicate 63 CHR ''0'' @ ''1b'') = 2 ^ 255
   \<and> sigV (replicate 64 CHR ''0'' @ ''8'' @ replicate 63 CHR ''0'' @ ''1b'') = 27
   \<and> parseSignatureToCompact (replicate 64 CHR ''0'' @ ''8'' @ replicate 63 CHR ''0'' @ ''1b'')
       = Inr (''0x'' @ replicate 64 CHR ''0'', ''0x8'' @ replicate 63 CHR ''0'')
   \<and> length (replicate 128 CHR ''0'' @ ''1c'') = 130
   \<and> list_all isHexDigit (replicate 128 CHR ''0'' @ ''1c'')
   \<and> sigS (replicate 128 CHR ''0'' @ ''1c'') = 0
   \<and> sigV (replicate 128 CHR ''0'' @ ''1c'') = 28
   \<and> parseSignatureToCompact (replicate 128 CHR ''0'' @ ''1c'')
       = Inr (''0x'' @ replicate 64 CHR ''0'', ''0x8'' @ replicate 63 CHR ''0'')
   \<and> length (replicate 128 CHR ''0'' @ ''1b'') = 130
   \<and> sigS (replicate 128 CHR ''0'' @ ''1b'') = 0
   \<and> sigV (replicate 128 CHR ''0'' @ ''1b'') = 27
   \<and> parseSignatureToCompact (replicate 128 CHR ''0'' @ ''1b'')
       = Inr (''0x'' @ replicate 64 CHR ''0'', ''0x'' @ replicate 64 CHR ''0'')
   \<and> length (replicate 128 CHR ''0'' @ ''00'') = 130
   \<and> sigS (replicate 128 CHR ''0'' @ ''00'') = 0
   \<and> sigV (replicate 128 CHR ''0'' @ ''00'') = 0
   \<and> parseSignatureToCompact (replicate 128 CHR ''0'' @ ''00'')
       = Inr (''0x'' @ replicate 64 CHR ''0'', ''0x'' @ replicate 64 CHR ''0'')"
proof -
  let ?A = "replicate 64 CHR ''0'' @ ''8'' @ replicate 63 CHR ''0'' @ ''1b''"
  let ?B = "replicate 128 CHR ''0'' @ ''1c''"
  let ?C = "replicate 128 CHR ''0'' @ ''1b''"
  let ?D = "replicate 128 CHR ''0'' @ ''00''"
  let ?out1 = "Inr (''0x'' @ replicate 64 CHR ''0'', ''0x8'' @ replicate 63 CHR ''0'') :: error + string \<times> string"
  let ?out0 = "Inr (''0x'' @ replicate 64 CHR ''0'', ''0x'' @ replicate 64 CHR ''0'') :: error + string \<times> string"
  have n0: "padStart 64 CHR ''0'' (natToString 16 0) = replicate 64 CHR ''0''"
    by (simp add: natToString_eval padStart_def replicate_numeral)
  have t: "take 64 ?A = replicate 64 CHR ''0''" "take 64 ?B = replicate 64 CHR ''0''"
    "take 64 ?C = replicate 64 CHR ''0''" "take 64 ?D = replicate 64 CHR ''0''"
    by simp_all
  have lA: "length ?A = 130" and hA: "list_all isHexDigit ?A" by code_simp+
  have sA: "sigS ?A = 2 ^ 255" and vA: "sigV ?A = 27" by (simp_all add: sig_eval)
  have lB: "length ?B = 130" and hB: "list_all isHexDigit ?B" by code_simp+
  have sB: "sigS ?B = 0" and vB: "sigV ?B = 28" by (simp_all add: sig_eval)
  have lC: "length ?C = 130" and hC: "list_all isHexDigit ?C" by code_simp+
  have sC: "sigS ?C = 0" and vC: "sigV ?C = 27" by (simp_all add: sig_eval)
  have lD: "length ?D = 130" and hD: "list_all isHexDigit ?D" by code_simp+
  have sD: "sigS ?D = 0" and vD: "sigV ?D = 0" by (simp_all add: sig_eval)
  have pA: "parseSignatureToCompact ?A = ?out1"
    using parseSignatureToCompact_hex [OF lA hA, of ?A] unfolding sA vA t
    by (simp add: natToString_eval replicate_numeral padStart_def)
  have pB: "parseSignatureToCompact ?B = ?out1"
    using parseSignatureToCompact_hex [OF lB hB, of ?B] unfolding sB vB t
    by (simp add: natToString_eval replicate_numeral padStart_def)
  have pC: "parseSignatureToCompact ?C = ?out0"
    using parseSignatureToCompact_hex [OF lC hC, of ?C] unfolding sC vC t
    by (simp add: n0)
  have pD: "parseSignatureToCompact ?D = ?out0"
    using parseSignatureToCompact_hex [OF lD hD, of ?D] unfolding sD vD t
    by (simp add: n0)
  from lA hA sA vA pA lB hB sB vB pB lC sC vC pC lD sD vD pD show ?thesis by blast
qed

section \<open>Orders and quotes\<close>

lemma io_bind_InrE:
  assumes "io_bind m f w = (Inr y, w')"
  obtains x w1 where "m w = (Inr x, w1)" and "f x w1 = (Inr y, w')"
  using assms by (auto simp: io_bind_def split: prod.splits sum.splits)

lemma io_bind_Inr: "m w = (Inr x, w1) \<Longrightarrow> io_bind m f w = f x w1"
  by (simp add: io_bind_def)

lemma io_bind_Inl: "m w = (Inl e, w1) \<Longrightarrow> io_bind m f w = (Inl e, w1)"
  by (simp add: io_bind_def)

lemma io_return_eq: "io_return x w = (r, w') \<longleftrightarrow> r = Inr x \<and> w' = w"
  by (auto simp: io_return_def)

lemma io_throw_eq: "io_throw e w = (r, w') \<longleftrightarrow> r = Inl e \<and> w' = w"
  by (auto simp: io_throw_def)

lemma generateSignedOrder_Inr:
  assumes "generateSignedOrder params wc w = (Inr so, w')"
  shows "so_order so = createLimitOrder (sdkOf w) params"
    and "so_orderHash so = computeOrderHash (so_order so)"
    and "so_orderData so = build (so_order so)"
  using assms
  by (auto simp: generateSignedOrder_def Let_def io_return_def elim!: io_bind_InrE)

lemma toString16_nonneg_props:
  assumes "0 \<le> x" and "x < 2 ^ 256"
  shows "length (padStart 64 CHR ''0'' (toString 16 x)) = 64"
    and "list_all isHexDigit (padStart 64 CHR ''0'' (toString 16 x))"
    and "int (digitsValue 16 (padStart 64 CHR ''0'' (toString 16 x))) = x"
proof -
  have ts: "toString 16 x = natToString 16 (nat x)" using assms(1) by (rule toString_nonneg)
  have "nat x < 16 ^ 64" using assms by (simp add: nat_less_iff)
  then have "length (natToString 16 (nat x)) \<le> 64" by (intro natToString_length) simp_all
  then show "length (padStart 64 CHR ''0'' (toString 16 x)) = 64" by (simp add: ts padStart_def)
  have "list_all (isRadixDigit 16) (natToString 16 (nat x))" by (rule natToString_digits) simp_all
  moreover have "isHexDigit CHR ''0''" by (simp add: isHexDigit_def)
  ultimately show "list_all isHexDigit (padStart 64 CHR ''0'' (toString 16 x))"
    by (auto simp: ts padStart_def isRadixDigit16 list_all_iff)
  show "int (digitsValue 16 (padStart 64 CHR ''0'' (toString 16 x))) = x"
    using assms(1) by (simp add: ts digitsValue_padStart digitsValue_natToString)
qed

text \<open>
  Claim C3. \<open>computeOrderHash\<close> returns \<open>0x\<close> followed by the salt in hexadecimal,
  padded with zeros to 64 digits: for a salt in the range of a \<open>uint256\<close> that is 64
  hexadecimal digits whose value is the salt. No other field of the order enters the result.
  The \<open>orderHash\<close> of every signed order that \<open>generateSignedOrder\<close> produces, and of
  its printed form, is this string of the salt the SDK drew.
\<close>

theorem computeOrderHash_is_salt:
  "computeOrderHash order = ''0x'' @ padStart 64 CHR ''0'' (toString 16 (lo_salt order))
   \<and> (0 \<le> lo_salt order \<and> lo_salt order < 2 ^ 256 \<longrightarrow>
        length (computeOrderHash order) = 66
        \<and> list_all isHexDigit (drop 2 (computeOrderHash order))
        \<and> int (digitsValue 16 (drop 2 (computeOrderHash order))) = lo_salt order)
   \<and> computeOrderHash (order\<lparr>lo_maker := a, lo_receiver := b, lo_makerAsset := c, lo_takerAsset := d,
        lo_makingAmount := e, lo_takingAmount := f, lo_makerTraits := g\<rparr>) = computeOrderHash order
   \<and> (generateSignedOrder params walletClient w = (Inr signedOrder, w') \<longrightarrow>
        so_orderHash signedOrder = computeOrderHash (so_order signedOrder)
        \<and> out_orderHash (formatOrderOutput signedOrder)
            = ''0x'' @ padStart 64 CHR ''0'' (toString 16 (sdkSalt (sdkOf w))))"
proof (intro conjI impI)
  show "computeOrderHash order = ''0x'' @ padStart 64 CHR ''0'' (toString 16 (lo_salt order))"
    by (simp add: computeOrderHash_def)
  show "computeOrderHash (order\<lparr>lo_maker := a, lo_receiver := b, lo_makerAsset := c, lo_takerAsset := d,
        lo_makingAmount := e, lo_takingAmount := f, lo_makerTraits := g\<rparr>) = computeOrderHash order"
    by (simp add: computeOrderHash_def)
next
  assume "0 \<le> lo_salt order \<and> lo_salt order < 2 ^ 256"
  then have s: "0 \<le> lo_salt order" "lo_salt order < 2 ^ 256" by simp_all
  show "length (computeOrderHash order) = 66"
    using toString16_nonneg_props(1) [OF s] by (simp add: computeOrderHash_def)
  show "list_all isHexDigit (drop 2 (computeOrderHash order))"
    using toString16_nonneg_props(2) [OF s] by (simp add: computeOrderHash_def)
  show "int (digitsValue 16 (drop 2 (computeOrderHash order))) = lo_salt order"
    using toString16_nonneg_props(3) [OF s] by (simp add: computeOrderHash_def)
next
  assume g: "generateSignedOrder params walletClient w = (Inr signedOrder, w')"
  show "so_orderHash signedOrder = computeOrderHash (so_order signedOrder)"
    by (rule generateSignedOrder_Inr(2) [OF g])
  show "out_orderHash (formatOrderOutput signedOrder)
            = ''0x'' @ padStart 64 CHR ''0'' (toString 16 (sdkSalt (sdkOf w)))"
    using generateSignedOrder_Inr [OF g]
    by (simp add: formatOrderOutput_def Let_def computeOrderHash_def createLimitOrder_def)
qed

lemmas io_defs = io_bind_def io_return_def io_throw_def io_lift_def io_catch_def bindE_def request_def

lemma testWorld_sign:
  "\<exists>so w'. generateSignedOrder testParams (createPolygonWalletClient ''0xA11ce'') testWorld = (Inr so, w')"
  by (simp add: generateSignedOrder_def signOrder_def createPolygonWalletClient_def io_defs
      testWorld_def Let_def)

text \<open>An order with the salt 255 has the order hash \<open>0x00...ff\<close>.\<close>

theorem computeOrderHash_is_salt_witness:
  "(0::int) \<le> 255 \<and> (255::int) < 2 ^ 256
   \<and> (\<exists>so w'. generateSignedOrder testParams (createPolygonWalletClient ''0xA11ce'') testWorld = (Inr so, w')
        \<and> lo_salt (so_order so) = 255
        \<and> length (computeOrderHash (so_order so)) = 66
        \<and> int (digitsValue 16 (drop 2 (computeOrderHash (so_order so)))) = 255
        \<and> out_orderHash (formatOrderOutput so) = ''0x'' @ replicate 62 CHR ''0'' @ ''ff'')"
proof -
  obtain so w' where g:
    "generateSignedOrder testParams (createPolygonWalletClient ''0xA11ce'') testWorld = (Inr so, w')"
    using testWorld_sign by blast
  have salt: "lo_salt (so_order so) = 255"
    using generateSignedOrder_Inr(1) [OF g]
    by (simp add: createLimitOrder_def testWorld_def testSdk_def Let_def)
  have r: "0 \<le> lo_salt (so_order so) \<and> lo_salt (so_order so) < 2 ^ 256" using salt by simp
  note t = computeOrderHash_is_salt [of "so_order so" undefined undefined undefined undefined undefined
      undefined undefined testParams "createPolygonWalletClient ''0xA11ce''" testWorld so w']
  from t r have l: "length (computeOrderHash (so_order so)) = 66" by blast
  from t r have "int (digitsValue 16 (drop 2 (computeOrderHash (so_order so)))) = lo_salt (so_order so)"
    by blast
  then have v: "int (digitsValue 16 (drop 2 (computeOrderHash (so_order so)))) = 255"
    by (simp only: salt)
  have "out_orderHash (formatOrderOutput so)
          = ''0x'' @ padStart 64 CHR ''0'' (toString 16 (sdkSalt (sdkOf testWorld)))"
    using t g by blast
  also have "\<dots> = ''0x'' @ replicate 62 CHR ''0'' @ ''ff''"
    by (simp add: testWorld_def testSdk_def toString_def padStart_def natToString_eval)
  finally have h: "out_orderHash (formatOrderOutput so) = ''0x'' @ replicate 62 CHR ''0'' @ ''ff''" .
  from g salt l v h show ?thesis by auto
qed

lemma generateSignedOrder_Inr_all:
  assumes "generateSignedOrder params wc w = (Inr so, w')"
  shows "so_order so = createLimitOrder (sdkOf w) params
     \<and> so_orderHash so = computeOrderHash (so_order so)
     \<and> so_orderData so = build (so_order so)"
  using generateSignedOrder_Inr [OF assms] by simp

lemma main_generateOrder_fields:
  assumes "main_generateOrder key amt confirmed w = (Inr out, w')"
  shows "\<exists>a. parseUnits w amt 6 = Inr a
           \<and> o_makingAmount (out_order out) = toString 10 (inputAmount (getQuote a))
           \<and> o_takingAmount (out_order out) = toString 10 (outputAmount (getQuote a))"
  using assms unfolding main_generateOrder_def Let_def
  by (auto simp: ORDER_CONFIG_makerAsset_def USDC_def io_throw_def io_return_def
      formatOrderOutput_def Let_def build_def createLimitOrder_def
      split: if_splits elim!: io_bind_InrE dest!: generateSignedOrder_Inr_all)

lemmas model_defs =
  getTokenBalance_def getTokenAllowance_def writeContract_approve_def waitForTransactionReceipt_def
  approveToken_def ensureTokenApproval_def validateSufficientBalance_def signOrder_def
  generateSignedOrder_def createPolygonWalletClient_def createAccountFromPrivateKey_def
  createLimitOrder_def buildMakerTraits_def build_def computeOrderHash_def formatOrderOutput_def

lemmas config_defs =
  ORDER_CONFIG_makerAsset_def ORDER_CONFIG_takerAsset_def ORDER_CONFIG_expirationMinutes_def
  USDC_def USDT_def BRLA_def TOKENS_def LIMIT_ORDER_PROTOCOL_ADDRESS_def maxUint256_def

text \<open>
  Claim C9. The hardcoded quote returns the input amount and, as output amount, the input
  times \<open>5 * 10 ^ 12\<close>; 100 USDC give \<open>5 * 10 ^ 20\<close> base units of BRLA. Whenever the
  generator script produces an order, its \<open>makingAmount\<close> and \<open>takingAmount\<close> are the
  decimal strings of the quote's input and output amounts.
\<close>

theorem getQuote_fixed_rate:
  "inputAmount (getQuote a) = a \<and> outputAmount (getQuote a) = a * 5 * 10 ^ 12
   \<and> outputAmount (getQuote 100000000) = 5 * 10 ^ 20
   \<and> (main_generateOrder key amt confirmed w = (Inr out, w') \<longrightarrow>
        (\<exists>raw. parseUnits w amt 6 = Inr raw
           \<and> o_makingAmount (out_order out) = toString 10 (inputAmount (getQuote raw))
           \<and> o_takingAmount (out_order out) = toString 10 (outputAmount (getQuote raw))))"
proof (intro conjI impI)
  show "inputAmount (getQuote a) = a" by (simp add: getQuote_def Let_def)
  show "outputAmount (getQuote a) = a * 5 * 10 ^ 12"
    by (simp add: getQuote_def fetchQuoteFromApi_def Let_def)
  show "outputAmount (getQuote 100000000) = 5 * 10 ^ 20"
    by (simp add: getQuote_def fetchQuoteFromApi_def Let_def)
next
  assume "main_generateOrder key amt confirmed w = (Inr out, w')"
  then show "\<exists>raw. parseUnits w amt 6 = Inr raw
           \<and> o_makingAmount (out_order out) = toString 10 (inputAmount (getQuote raw))
           \<and> o_takingAmount (out_order out) = toString 10 (outputAmount (getQuote raw))"
    by (rule main_generateOrder_fields)
qed

lemma testWorld_main:
  "\<exists>out w'. main_generateOrder ''key'' ''100'' True testWorld = (Inr out, w')"
  by (simp add: main_generateOrder_def model_defs config_defs io_defs getQuote_def
      fetchQuoteFromApi_def testWorld_def Let_def)

text \<open>The script run for 100 USDC: the order sells \<open>100000000\<close> for \<open>500000000000000000000\<close>.\<close>

theorem getQuote_fixed_rate_witness:
  "\<exists>out w'. main_generateOrder ''key'' ''100'' True testWorld = (Inr out, w')
     \<and> parseUnits testWorld ''100'' 6 = Inr 100000000
     \<and> o_makingAmount (out_order out) = ''100000000''
     \<and> o_takingAmount (out_order out) = ''500000000000000000000''"
proof -
  obtain out w' where m: "main_generateOrder ''key'' ''100'' True testWorld = (Inr out, w')"
    using testWorld_main by blast
  have p: "parseUnits testWorld ''100'' 6 = Inr 100000000" by (simp add: testWorld_def)
  from getQuote_fixed_rate [of 0 "''key''" "''100''" True testWorld out w'] m p
  have "o_makingAmount (out_order out) = toString 10 (inputAmount (getQuote 100000000))"
    and "o_takingAmount (out_order out) = toString 10 (outputAmount (getQuote 100000000))"
    by auto
  moreover have "toString 10 (inputAmount (getQuote 100000000)) = ''100000000''"
    by (simp add: getQuote_def Let_def toString_def natToString_eval)
  moreover have "toString 10 (outputAmount (getQuote 100000000)) = ''500000000000000000000''"
    by (simp add: getQuote_def fetchQuoteFromApi_def Let_def toString_def natToString_eval)
  ultimately show ?thesis using m p by auto
qed

section \<open>Allowances and balances\<close>

text \<open>The steps of \<open>ensureTokenApproval\<close>, one after the other.\<close>

lemma ensureTokenApproval_steps:
  "ensureTokenApproval wc tok own req w =
     (let rd = ReadAllowance tok own LIMIT_ORDER_PROTOCOL_ADDRESS;
          w1 = w\<lparr>trace := trace w @ [rd]\<rparr>
      in case rpcFailure w rd of
           Some m \<Rightarrow> (Inl (RpcError m), w1)
         | None \<Rightarrow>
             if req \<le> chainAllowance w tok own LIMIT_ORDER_PROTOCOL_ADDRESS
             then (Inr \<lparr>approved = True, approvalTxHash = None\<rparr>, w1)
             else
               case account wc of
                 None \<Rightarrow> (Inl WalletHasNoAccount, w1)
               | Some a \<Rightarrow>
                   let ev = WriteApprove tok a LIMIT_ORDER_PROTOCOL_ADDRESS maxUint256;
                       h = txHashOf w ev;
                       w2 = w\<lparr>trace := trace w @ [rd, ev]\<rparr>
                   in case rpcFailure w ev of
                        Some m \<Rightarrow> (Inl (RpcError m), w2)
                      | None \<Rightarrow>
                          let w3 = (if txStatusOf w h = Success
                                    then w\<lparr>trace := trace w @ [rd, ev, WaitForReceipt h],
                                           chainAllowance := (\<lambda>t o' s.
                                             if t = tok \<and> o' = a \<and> s = LIMIT_ORDER_PROTOCOL_ADDRESS
                                             then maxUint256 else chainAllowance w t o' s)\<rparr>
                                    else w\<lparr>trace := trace w @ [rd, ev, WaitForReceipt h]\<rparr>)
                          in case rpcFailure w (WaitForReceipt h) of
                               Some m \<Rightarrow> (Inl (RpcError m), w3)
                             | None \<Rightarrow> (Inr \<lparr>approved = True, approvalTxHash = Some h\<rparr>, w3))"
  by (simp add: ensureTokenApproval_def getTokenAllowance_def approveToken_def
      writeContract_approve_def waitForTransactionReceipt_def request_def
      io_bind_def io_return_def io_throw_def Let_def
      split: option.splits cong: if_cong)

lemma newEvents_append: "newEvents w (w\<lparr>trace := trace w @ evs\<rparr>) = evs"
  by (simp add: newEvents_def)

lemma newEvents_append_upd:
  "newEvents w (w\<lparr>trace := trace w @ evs, chainAllowance := f\<rparr>) = evs"
  by (simp add: newEvents_def)

text \<open>
  Claim C6. With a wallet client that has an account and an allowance read that is
  answered, \<open>ensureTokenApproval\<close> submits an approval if and only if the allowance of
  the limit-order-protocol contract is below the required amount. When the allowance is
  enough it returns \<open>approved\<close> without a transaction hash, having only read the allowance.
  Otherwise the approval follows the read; when the submission and the wait for the receipt
  are answered, it returns \<open>approved\<close> with the hash of the approval, after the wait.
\<close>

theorem ensureTokenApproval_submits_iff:
  assumes rd: "rpcFailure w (ReadAllowance tok own LIMIT_ORDER_PROTOCOL_ADDRESS) = None"
    and acct: "account wc = Some a"
  shows "(list_ex isWriteApprove (newEvents w (snd (ensureTokenApproval wc tok own req w)))
            \<longleftrightarrow> chainAllowance w tok own LIMIT_ORDER_PROTOCOL_ADDRESS < req)
    \<and> (req \<le> chainAllowance w tok own LIMIT_ORDER_PROTOCOL_ADDRESS \<longrightarrow>
          ensureTokenApproval wc tok own req w
            = (Inr \<lparr>approved = True, approvalTxHash = None\<rparr>,
               w\<lparr>trace := trace w @ [ReadAllowance tok own LIMIT_ORDER_PROTOCOL_ADDRESS]\<rparr>))
    \<and> (chainAllowance w tok own LIMIT_ORDER_PROTOCOL_ADDRESS < req \<longrightarrow>
          take 2 (newEvents w (snd (ensureTokenApproval wc tok own req w)))
            = [ReadAllowance tok own LIMIT_ORDER_PROTOCOL_ADDRESS,
               WriteApprove tok a LIMIT_ORDER_PROTOCOL_ADDRESS maxUint256])
    \<and> (chainAllowance w tok own LIMIT_ORDER_PROTOCOL_ADDRESS < req
         \<and> rpcFailure w (WriteApprove tok a LIMIT_ORDER_PROTOCOL_ADDRESS maxUint256) = None
         \<and> rpcFailure w (WaitForReceipt (txHashOf w (WriteApprove tok a LIMIT_ORDER_PROTOCOL_ADDRESS maxUint256))) = None
         \<longrightarrow>
          fst (ensureTokenApproval wc tok own req w)
            = Inr \<lparr>approved = True,
                   approvalTxHash = Some (txHashOf w (WriteApprove tok a LIMIT_ORDER_PROTOCOL_ADDRESS maxUint256))\<rparr>
          \<and> newEvents w (snd (ensureTokenApproval wc tok own req w))
            = [ReadAllowance tok own LIMIT_ORDER_PROTOCOL_ADDRESS,
               WriteApprove tok a LIMIT_ORDER_PROTOCOL_ADDRESS maxUint256,
               WaitForReceipt (txHashOf w (WriteApprove tok a LIMIT_ORDER_PROTOCOL_ADDRESS maxUint256))])"
  unfolding ensureTokenApproval_steps Let_def
  using rd acct
  by (auto simp: newEvents_def split: option.splits)

lemma ensureTokenApproval_new_approvals:
  "\<forall>ev \<in> set (newEvents w (snd (ensureTokenApproval wc tok own req w))).
      isWriteApprove ev \<longrightarrow>
      (\<exists>a. account wc = Some a \<and> ev = WriteApprove tok a LIMIT_ORDER_PROTOCOL_ADDRESS maxUint256)"
  unfolding ensureTokenApproval_steps Let_def
  by (auto simp: newEvents_def split: option.splits)

lemma ensureTokenApproval_covered:
  assumes "chainAllowance w tok own LIMIT_ORDER_PROTOCOL_ADDRESS = maxUint256" and "req \<le> maxUint256"
  shows "snd (ensureTokenApproval wc tok own req w)
           = w\<lparr>trace := trace w @ [ReadAllowance tok own LIMIT_ORDER_PROTOCOL_ADDRESS]\<rparr>"
  unfolding ensureTokenApproval_steps Let_def using assms
  by (auto split: option.splits)

lemma ensureTokenApprovals_covered:
  assumes "chainAllowance w tok own LIMIT_ORDER_PROTOCOL_ADDRESS = maxUint256"
    and "\<forall>c \<in> set calls. snd c \<le> maxUint256"
  shows "ensureTokenApprovals tok own calls w
           = w\<lparr>trace := trace w @ replicate (length calls) (ReadAllowance tok own LIMIT_ORDER_PROTOCOL_ADDRESS)\<rparr>"
  using assms
proof (induction calls arbitrary: w)
  case Nil
  then show ?case by simp
next
  case (Cons c calls)
  obtain wc req where c: "c = (wc, req)" by (cases c)
  let ?w1 = "w\<lparr>trace := trace w @ [ReadAllowance tok own LIMIT_ORDER_PROTOCOL_ADDRESS]\<rparr>"
  have r: "req \<le> maxUint256" using Cons.prems(2) c by simp
  have s: "snd (ensureTokenApproval wc tok own req w) = ?w1"
    by (rule ensureTokenApproval_covered [OF Cons.prems(1) r])
  have a1: "chainAllowance ?w1 tok own LIMIT_ORDER_PROTOCOL_ADDRESS = maxUint256"
    using Cons.prems(1) by simp
  have "ensureTokenApprovals tok own calls ?w1
          = ?w1\<lparr>trace := trace ?w1 @ replicate (length calls) (ReadAllowance tok own LIMIT_ORDER_PROTOCOL_ADDRESS)\<rparr>"
    using Cons.IH [OF a1] Cons.prems(2) by simp
  then show ?case by (simp add: c s replicate_append_same)
qed

text \<open>
  Claim C7. Every approval that \<open>ensureTokenApproval\<close> submits is for the token, from the
  wallet's account, to the limit-order-protocol contract, for \<open>maxUint256\<close>. After a call
  that returned the hash of an approval mined with success, sent by the owner, the allowance
  is \<open>maxUint256\<close>: it covers every later required amount up to \<open>maxUint256\<close>, and no
  sequence of later calls for that token and owner submits another approval.
\<close>

theorem approval_is_unlimited:
  "(\<forall>ev \<in> set (newEvents w (snd (ensureTokenApproval wc tok own req w))).
      isWriteApprove ev \<longrightarrow>
      (\<exists>a. account wc = Some a \<and> ev = WriteApprove tok a LIMIT_ORDER_PROTOCOL_ADDRESS maxUint256))
   \<and> (ensureTokenApproval wc tok own req w = (Inr res, w') \<and> approvalTxHash res = Some h
       \<and> txStatusOf w h = Success \<and> account wc = Some own
       \<and> (\<forall>c \<in> set calls. snd c \<le> maxUint256) \<longrightarrow>
        chainAllowance w' tok own LIMIT_ORDER_PROTOCOL_ADDRESS = maxUint256
        \<and> (\<forall>c \<in> set calls. snd c \<le> chainAllowance w' tok own LIMIT_ORDER_PROTOCOL_ADDRESS)
        \<and> filter isWriteApprove (newEvents w' (ensureTokenApprovals tok own calls w')) = []
        \<and> chainAllowance (ensureTokenApprovals tok own calls w') tok own LIMIT_ORDER_PROTOCOL_ADDRESS
            = maxUint256)"
proof (intro conjI impI, goal_cases)
  case 1
  show ?case by (rule ensureTokenApproval_new_approvals)
next
  case 2
  then have e: "ensureTokenApproval wc tok own req w = (Inr res, w')" and hh: "approvalTxHash res = Some h"
    and st: "txStatusOf w h = Success" and ac: "account wc = Some own" by simp_all
  from e hh st ac show ?case
    unfolding ensureTokenApproval_steps Let_def
    by (auto split: option.splits if_splits)
next
  case 3
  then have e: "ensureTokenApproval wc tok own req w = (Inr res, w')" and hh: "approvalTxHash res = Some h"
    and st: "txStatusOf w h = Success" and ac: "account wc = Some own"
    and cs: "\<forall>c \<in> set calls. snd c \<le> maxUint256" by simp_all
  from e hh st ac have "chainAllowance w' tok own LIMIT_ORDER_PROTOCOL_ADDRESS = maxUint256"
    unfolding ensureTokenApproval_steps Let_def
    by (auto split: option.splits if_splits)
  with cs show ?case by simp
next
  case 4
  then have e: "ensureTokenApproval wc tok own req w = (Inr res, w')" and hh: "approvalTxHash res = Some h"
    and st: "txStatusOf w h = Success" and ac: "account wc = Some own"
    and cs: "\<forall>c \<in> set calls. snd c \<le> maxUint256" by simp_all
  from e hh st ac have a: "chainAllowance w' tok own LIMIT_ORDER_PROTOCOL_ADDRESS = maxUint256"
    unfolding ensureTokenApproval_steps Let_def
    by (auto split: option.splits if_splits)
  show ?case
    by (simp add: ensureTokenApprovals_covered [OF a cs] newEvents_def)
next
  case 5
  then have e: "ensureTokenApproval wc tok own req w = (Inr res, w')" and hh: "approvalTxHash res = Some h"
    and st: "txStatusOf w h = Success" and ac: "account wc = Some own"
    and cs: "\<forall>c \<in> set calls. snd c \<le> maxUint256" by simp_all
  from e hh st ac have a: "chainAllowance w' tok own LIMIT_ORDER_PROTOCOL_ADDRESS = maxUint256"
    unfolding ensureTokenApproval_steps Let_def
    by (auto split: option.splits if_splits)
  show ?case
    by (simp add: ensureTokenApprovals_covered [OF a cs] a)
qed

text \<open>With no allowance, 100 USDC need an approval; a required amount of zero needs none.\<close>

theorem ensureTokenApproval_submits_iff_witness:
  "rpcFailure testWorld (ReadAllowance (tokenAddress USDC) ''0xA11ce'' LIMIT_ORDER_PROTOCOL_ADDRESS) = None
   \<and> account (createPolygonWalletClient ''0xA11ce'') = Some ''0xA11ce''
   \<and> chainAllowance testWorld (tokenAddress USDC) ''0xA11ce'' LIMIT_ORDER_PROTOCOL_ADDRESS < 100000000
   \<and> list_ex isWriteApprove (newEvents testWorld (snd (ensureTokenApproval
         (createPolygonWalletClient ''0xA11ce'') (tokenAddress USDC) ''0xA11ce'' 100000000 testWorld)))
   \<and> fst (ensureTokenApproval (createPolygonWalletClient ''0xA11ce'') (tokenAddress USDC) ''0xA11ce''
         100000000 testWorld) = Inr \<lparr>approved = True, approvalTxHash = Some ''0xfeed''\<rparr>
   \<and> (0::int) \<le> chainAllowance testWorld (tokenAddress USDC) ''0xA11ce'' LIMIT_ORDER_PROTOCOL_ADDRESS
   \<and> \<not> list_ex isWriteApprove (newEvents testWorld (snd (ensureTokenApproval
         (createPolygonWalletClient ''0xA11ce'') (tokenAddress USDC) ''0xA11ce'' 0 testWorld)))
   \<and> fst (ensureTokenApproval (createPolygonWalletClient ''0xA11ce'') (tokenAddress USDC) ''0xA11ce''
         0 testWorld) = Inr \<lparr>approved = True, approvalTxHash = None\<rparr>"
proof -
  let ?wc = "createPolygonWalletClient ''0xA11ce''"
  let ?t = "tokenAddress USDC"
  have rd: "rpcFailure testWorld (ReadAllowance ?t ''0xA11ce'' LIMIT_ORDER_PROTOCOL_ADDRESS) = None"
    by (simp add: testWorld_def)
  have ac: "account ?wc = Some ''0xA11ce''" by (simp add: createPolygonWalletClient_def)
  have al: "chainAllowance testWorld ?t ''0xA11ce'' LIMIT_ORDER_PROTOCOL_ADDRESS = 0"
    by (simp add: testWorld_def)
  have f: "rpcFailure testWorld ev = None" for ev by (simp add: testWorld_def)
  have h: "txHashOf testWorld ev = ''0xfeed''" for ev by (simp add: testWorld_def)
  note t1 = ensureTokenApproval_submits_iff [OF rd ac, of 100000000]
  note t2 = ensureTokenApproval_submits_iff [OF rd ac, of 0]
  from t1 al f h have a: "list_ex isWriteApprove (newEvents testWorld (snd (ensureTokenApproval
         ?wc ?t ''0xA11ce'' 100000000 testWorld)))"
    and b: "fst (ensureTokenApproval ?wc ?t ''0xA11ce'' 100000000 testWorld)
              = Inr \<lparr>approved = True, approvalTxHash = Some ''0xfeed''\<rparr>"
    by simp_all
  from t2 al have c: "\<not> list_ex isWriteApprove (newEvents testWorld (snd (ensureTokenApproval
         ?wc ?t ''0xA11ce'' 0 testWorld)))"
    and d: "fst (ensureTokenApproval ?wc ?t ''0xA11ce'' 0 testWorld)
              = Inr \<lparr>approved = True, approvalTxHash = None\<rparr>"
    by (simp_all add: newEvents_append)
  from rd ac al a b c d show ?thesis by simp
qed

text \<open>After the approval for 100 USDC, neither 5 base units nor \<open>maxUint256\<close> need another.\<close>

theorem approval_is_unlimited_witness:
  "\<exists>res w'. ensureTokenApproval (createPolygonWalletClient ''0xA11ce'') (tokenAddress USDC) ''0xA11ce''
                100000000 testWorld = (Inr res, w')
     \<and> approvalTxHash res = Some ''0xfeed''
     \<and> txStatusOf testWorld ''0xfeed'' = Success
     \<and> newEvents testWorld w'
         = [ReadAllowance (tokenAddress USDC) ''0xA11ce'' LIMIT_ORDER_PROTOCOL_ADDRESS,
            WriteApprove (tokenAddress USDC) ''0xA11ce'' LIMIT_ORDER_PROTOCOL_ADDRESS maxUint256,
            WaitForReceipt ''0xfeed'']
     \<and> chainAllowance w' (tokenAddress USDC) ''0xA11ce'' LIMIT_ORDER_PROTOCOL_ADDRESS = maxUint256
     \<and> filter isWriteApprove (newEvents w' (ensureTokenApprovals (tokenAddress USDC) ''0xA11ce''
           [(createPolygonWalletClient ''0xA11ce'', 5), (createPolygonWalletClient ''0xA11ce'', maxUint256)] w')) = []"
proof -
  let ?wc = "createPolygonWalletClient ''0xA11ce''"
  let ?t = "tokenAddress USDC"
  let ?calls = "[(?wc, 5), (?wc, maxUint256)]"
  obtain res w' where e: "ensureTokenApproval ?wc ?t ''0xA11ce'' 100000000 testWorld = (Inr res, w')"
    and hh: "approvalTxHash res = Some ''0xfeed''"
    and ne: "newEvents testWorld w' = [ReadAllowance ?t ''0xA11ce'' LIMIT_ORDER_PROTOCOL_ADDRESS,
            WriteApprove ?t ''0xA11ce'' LIMIT_ORDER_PROTOCOL_ADDRESS maxUint256, WaitForReceipt ''0xfeed'']"
    unfolding ensureTokenApproval_steps Let_def
    by (simp add: testWorld_def createPolygonWalletClient_def newEvents_def)
  have st: "txStatusOf testWorld ''0xfeed'' = Success" by (simp add: testWorld_def)
  have ac: "account ?wc = Some ''0xA11ce''" by (simp add: createPolygonWalletClient_def)
  have cs: "\<forall>c \<in> set ?calls. snd c \<le> maxUint256" by (simp add: maxUint256_def)
  from approval_is_unlimited [of testWorld ?wc ?t "''0xA11ce''" 100000000 res w' "''0xfeed''" ?calls]
    e hh st ac cs
  have "chainAllowance w' ?t ''0xA11ce'' LIMIT_ORDER_PROTOCOL_ADDRESS = maxUint256"
    and "filter isWriteApprove (newEvents w' (ensureTokenApprovals ?t ''0xA11ce'' ?calls w')) = []"
    by blast+
  with e hh st ne show ?thesis by blast
qed

lemma validateSufficientBalance_steps:
  "validateSufficientBalance tok own req w =
     (let w1 = w\<lparr>trace := trace w @ [ReadBalance tok own]\<rparr>
      in case rpcFailure w (ReadBalance tok own) of
           Some m \<Rightarrow> (Inl (RpcError m), w1)
         | None \<Rightarrow> (Inr \<lparr>sufficient = (req \<le> chainBalance w tok own),
                          balance = chainBalance w tok own\<rparr>, w1))"
  by (simp add: validateSufficientBalance_def getTokenBalance_def request_def
      io_bind_def io_return_def Let_def split: option.splits)

lemma getQuoteApi_ok:
  assumes "rpcFailure w (QuoteRequest raw) = None"
    and "quoteReply w raw = QuoteHttpOk i out r"
    and "BigInt i = Inr making" and "BigInt out = Inr taking"
  shows "getQuoteApi raw w =
           (Inr \<lparr>inputAmount = making, outputAmount = taking, rate = Some r,
                  inputToken = ORDER_CONFIG_makerAsset, outputToken = ORDER_CONFIG_takerAsset\<rparr>,
            w\<lparr>trace := trace w @ [QuoteRequest raw]\<rparr>)"
  using assms
  by (simp add: getQuoteApi_def request_def io_bind_def bindE_def Let_def)

text \<open>
  Claim C5. When the balance read is answered, \<open>validateSufficientBalance\<close> returns
  \<open>sufficient\<close> exactly when the balance is at least the required amount. In
  \<open>generateOrder\<close>, when the amount parses to a positive number, the quote arrives, the
  key gives an account and the balance read is answered with less than the quote's input
  amount, the function raises the insufficient-balance error with the required and the
  available amount, having sent the quote request and the balance read and nothing else:
  no allowance read, no approval, no signature.
\<close>

theorem insufficient_balance_halts:
  "(rpcFailure w (ReadBalance tok own) = None \<longrightarrow>
      fst (validateSufficientBalance tok own req w)
        = Inr \<lparr>sufficient = (req \<le> chainBalance w tok own), balance = chainBalance w tok own\<rparr>)
   \<and> (parseUnits w (amountStr opts) 6 = Inr raw \<and> 0 < raw
       \<and> rpcFailure w (QuoteRequest raw) = None
       \<and> quoteReply w raw = QuoteHttpOk i out r
       \<and> BigInt i = Inr making \<and> BigInt out = Inr taking
       \<and> privateKeyToAccount w (makerPrivateKey opts) = Inr acct
       \<and> rpcFailure w (ReadBalance (tokenAddress USDC) acct) = None
       \<and> chainBalance w (tokenAddress USDC) acct < making
       \<longrightarrow>
       generateOrder opts w =
         (Inl (InsufficientBalance
            (''Insufficient USDC balance. Required: '' @ formatTokenAmount making 6 (Some ''USDC'')
               @ '', Available: ''
               @ formatTokenAmount (chainBalance w (tokenAddress USDC) acct) 6 (Some ''USDC''))),
          w\<lparr>trace := trace w @ [QuoteRequest raw, ReadBalance (tokenAddress USDC) acct]\<rparr>))"
proof (intro conjI impI)
  assume "rpcFailure w (ReadBalance tok own) = None"
  then show "fst (validateSufficientBalance tok own req w)
        = Inr \<lparr>sufficient = (req \<le> chainBalance w tok own), balance = chainBalance w tok own\<rparr>"
    by (simp add: validateSufficientBalance_steps Let_def)
next
  assume a: "parseUnits w (amountStr opts) 6 = Inr raw \<and> 0 < raw
       \<and> rpcFailure w (QuoteRequest raw) = None
       \<and> quoteReply w raw = QuoteHttpOk i out r
       \<and> BigInt i = Inr making \<and> BigInt out = Inr taking
       \<and> privateKeyToAccount w (makerPrivateKey opts) = Inr acct
       \<and> rpcFailure w (ReadBalance (tokenAddress USDC) acct) = None
       \<and> chainBalance w (tokenAddress USDC) acct < making"
  then have a1: "rpcFailure w (QuoteRequest raw) = None" and a2: "quoteReply w raw = QuoteHttpOk i out r"
    and a3: "BigInt i = Inr making" and a4: "BigInt out = Inr taking"
    by blast+
  have q: "getQuoteApi raw w =
           (Inr \<lparr>inputAmount = making, outputAmount = taking, rate = Some r,
                  inputToken = ORDER_CONFIG_makerAsset, outputToken = ORDER_CONFIG_takerAsset\<rparr>,
            w\<lparr>trace := trace w @ [QuoteRequest raw]\<rparr>)"
    by (rule getQuoteApi_ok [OF a1 a2 a3 a4])
  from a have pu: "parseUnits w (amountStr opts) (tokenDecimals USDC) = Inr raw"
    by (simp add: USDC_def)
  from a pu q show "generateOrder opts w =
         (Inl (InsufficientBalance
            (''Insufficient USDC balance. Required: '' @ formatTokenAmount making 6 (Some ''USDC'')
               @ '', Available: ''
               @ formatTokenAmount (chainBalance w (tokenAddress USDC) acct) 6 (Some ''USDC''))),
          w\<lparr>trace := trace w @ [QuoteRequest raw, ReadBalance (tokenAddress USDC) acct]\<rparr>)"
    unfolding generateOrder_def Let_def ORDER_CONFIG_makerAsset_def
    by (simp add: io_bind_def io_throw_def createAccountFromPrivateKey_def
        validateSufficientBalance_steps Let_def insufficientBalanceMessage_def)
      (simp add: USDC_def)
qed

lemma isDigit_props: "isDigit c \<Longrightarrow> \<not> isWhiteSpace c \<and> isHexDigit c \<and> digitValue c < 10
    \<and> c \<noteq> CHR ''x'' \<and> c \<noteq> CHR ''X'' \<and> c \<noteq> CHR ''o'' \<and> c \<noteq> CHR ''O'' \<and> c \<noteq> CHR ''b''
    \<and> c \<noteq> CHR ''B'' \<and> c \<noteq> CHR ''-'' \<and> c \<noteq> CHR ''+''"
  by (auto simp: isDigit_def isWhiteSpace_def isHexDigit_def digitValue_def Let_def)

lemma BigInt_decimal:
  assumes "s \<noteq> []" and "list_all isDigit s"
  shows "BigInt s = Inr (int (digitsValue 10 s))"
proof -
  have all: "\<forall>c \<in> set s. isDigit c" using assms(2) by (simp add: list_all_iff)
  have "isDigit (hd s)" "isDigit (last s)" using assms(1) all by simp_all
  then have h: "\<not> isWhiteSpace (hd s)" "\<not> isWhiteSpace (last s)" "hd s \<noteq> CHR ''-''" "hd s \<noteq> CHR ''+''"
    using isDigit_props by blast+
  have t: "trimString s = s" by (rule trimString_id [OF assms(1) h(1,2)])
  have q: "take 2 s \<noteq> [a, b]" if "\<not> isDigit b" for a b
  proof (cases s)
    case Nil
    then show ?thesis by simp
  next
    case (Cons x t)
    show ?thesis
    proof (cases t)
      case Nil
      then show ?thesis using Cons by simp
    next
      case (Cons y u)
      then have "isDigit y" using all \<open>s = x # t\<close> by simp
      then have "y \<noteq> b" using that by auto
      then show ?thesis using Cons \<open>s = x # t\<close> by simp
    qed
  qed
  have p: "take 2 s \<noteq> ''0x''" "take 2 s \<noteq> ''0X''" "take 2 s \<noteq> ''0o''" "take 2 s \<noteq> ''0O''"
    "take 2 s \<noteq> ''0b''" "take 2 s \<noteq> ''0B''"
    by (rule q, simp add: isDigit_def)+
  have r: "list_all (isRadixDigit 10) s" using assms(2) by (simp add: isRadix10_isDigit list_all_iff)
  show ?thesis
    unfolding BigInt_def Let_def t using assms(1) p h(3,4) r by (simp add: parseDigits_def)
qed

lemma ensureTokenApproval_frame:
  assumes "ensureTokenApproval wc tok own req w = (res, w')"
  shows "rpcFailure w' = rpcFailure w" and "txHashOf w' = txHashOf w" and "txStatusOf w' = txStatusOf w"
    and "gasEstimateOf w' = gasEstimateOf w"
  using assms unfolding ensureTokenApproval_steps Let_def
  by (auto split: option.splits if_splits)

lemma bigintDiv_nat: "bigintDiv (int g) 10 = int (g div 10)"
  by (cases "g = 0") (simp_all add: bigintDiv_def zdiv_int)

section \<open>Order generation and fill\<close>

text \<open>A maker with 5 USDC asking to sell 100.\<close>

theorem insufficient_balance_halts_witness:
  "parseUnits (testWorld\<lparr>chainBalance := \<lambda>t o'. 5000000\<rparr>) ''100'' 6 = Inr 100000000
   \<and> BigInt ''100000000'' = Inr 100000000
   \<and> chainBalance (testWorld\<lparr>chainBalance := \<lambda>t o'. 5000000\<rparr>) (tokenAddress USDC) ''0xA11ce'' < 100000000
   \<and> fst (validateSufficientBalance (tokenAddress USDC) ''0xA11ce'' 100000000
          (testWorld\<lparr>chainBalance := \<lambda>t o'. 5000000\<rparr>))
        = Inr \<lparr>sufficient = False, balance = 5000000\<rparr>
   \<and> generateOrder \<lparr>makerPrivateKey = ''key'', amountStr = ''100'', skipApproval = None, silent = None\<rparr>
         (testWorld\<lparr>chainBalance := \<lambda>t o'. 5000000\<rparr>)
       = (Inl (InsufficientBalance ''Insufficient USDC balance. Required: 100 USDC, Available: 5 USDC''),
          testWorld\<lparr>chainBalance := \<lambda>t o'. 5000000,
                     trace := [QuoteRequest 100000000, ReadBalance (tokenAddress USDC) ''0xA11ce'']\<rparr>)"
proof -
  let ?w = "testWorld\<lparr>chainBalance := \<lambda>t o'. 5000000\<rparr>"
  let ?opts = "\<lparr>makerPrivateKey = ''key'', amountStr = ''100'', skipApproval = None, silent = None\<rparr>"
  have pu: "parseUnits ?w (amountStr ?opts) 6 = Inr 100000000" by (simp add: testWorld_def)
  have f: "rpcFailure ?w ev = None" for ev by (simp add: testWorld_def)
  have qr: "quoteReply ?w 100000000 = QuoteHttpOk ''100000000'' ''500000000000000000000'' ''5.0''"
    by (simp add: testWorld_def)
  have b1: "BigInt ''100000000'' = Inr 100000000"
    by (subst BigInt_decimal) (simp_all add: isDigit_def sig_eval)
  have b2: "BigInt ''500000000000000000000'' = Inr 500000000000000000000"
    by (subst BigInt_decimal) (simp_all add: isDigit_def sig_eval)
  have k: "privateKeyToAccount ?w (makerPrivateKey ?opts) = Inr ''0xA11ce''" by (simp add: testWorld_def)
  have bal: "chainBalance ?w (tokenAddress USDC) ''0xA11ce'' = 5000000" by simp
  have fm1: "formatTokenAmount 100000000 6 (Some ''USDC'') = ''100 USDC''"
    by (simp add: formatTokenAmount_def bigintDiv_def bigintMod_def toString_def padStart_def
        stripTrailingZeros_def natToString_eval)
  have fm2: "formatTokenAmount 5000000 6 (Some ''USDC'') = ''5 USDC''"
    by (simp add: formatTokenAmount_def bigintDiv_def bigintMod_def toString_def padStart_def
        stripTrailingZeros_def natToString_eval)
  have tr: "trace ?w = []" by (simp add: testWorld_def)
  note t = insufficient_balance_halts [of ?w "tokenAddress USDC" "''0xA11ce''" 100000000 ?opts 100000000
      "''100000000''" "''500000000000000000000''" "''5.0''" 100000000 500000000000000000000 "''0xA11ce''"]
  from t f bal have v: "fst (validateSufficientBalance (tokenAddress USDC) ''0xA11ce'' 100000000 ?w)
        = Inr \<lparr>sufficient = False, balance = 5000000\<rparr>"
    by simp
  from t pu f qr b1 b2 k bal
  have "generateOrder ?opts ?w =
         (Inl (InsufficientBalance
            (''Insufficient USDC balance. Required: '' @ formatTokenAmount 100000000 6 (Some ''USDC'')
               @ '', Available: ''
               @ formatTokenAmount (chainBalance ?w (tokenAddress USDC) ''0xA11ce'') 6 (Some ''USDC''))),
          ?w\<lparr>trace := trace ?w @ [QuoteRequest 100000000, ReadBalance (tokenAddress USDC) ''0xA11ce'']\<rparr>)"
    by simp
  then have g: "generateOrder ?opts ?w
       = (Inl (InsufficientBalance ''Insufficient USDC balance. Required: 100 USDC, Available: 5 USDC''),
          testWorld\<lparr>chainBalance := \<lambda>t o'. 5000000,
                     trace := [QuoteRequest 100000000, ReadBalance (tokenAddress USDC) ''0xA11ce'']\<rparr>)"
    by (simp add: bal fm1 fm2 tr)
  from pu b1 bal v g show ?thesis by simp
qed

text \<open>
  Claim C10. When \<open>executeFill\<close> reaches its \<open>try\<close> block (the key gives an account,
  the order's taking amount and taker asset parse, the asset is a known token, the taker's
  balance is enough, the approval step returns and the call data is built, which needs
  every integer of the order and the amount to be in the \<open>uint256\<close> range), it asks for a
  gas estimate \<open>g\<close> and sends the fill transaction with the gas \<open>g + g div 10\<close>. When
  the receipt arrives, \<open>success\<close> is true exactly when its status is success, and the
  result carries the transaction hash, with the error \<open>Transaction reverted\<close> otherwise.
  A failure of the estimate, of the submission or of the wait gives \<open>success = False\<close> with
  the message of the failure.
\<close>

theorem executeFill_gas_and_status:
  assumes key: "privateKeyToAccount w key = Inr taker"
    and ta: "BigInt (o_takingAmount (out_order ord)) = Inr amt"
    and tk: "BigInt (o_takerAsset (out_order ord)) = Inr assetNo"
    and tok: "getTokenByAddress (''0x'' @ padStart 40 CHR ''0'' (toString 16 assetNo)) = Some token"
    and rb: "rpcFailure w (ReadBalance (tokenAddress token) taker) = None"
    and bal: "amt \<le> chainBalance w (tokenAddress token) taker"
    and apr: "ensureTokenApproval (createPolygonWalletClient taker) (tokenAddress token) taker amt
                (w\<lparr>trace := trace w @ [ReadBalance (tokenAddress token) taker]\<rparr>) = (Inr ar, w2)"
    and fd: "buildFillOrderData ord amt = Inr fillData"
  shows "executeFill ord key w =
     (let g = gasEstimateOf w taker LIMIT_ORDER_PROTOCOL_ADDRESS fillData;
          eg = EstimateGas taker LIMIT_ORDER_PROTOCOL_ADDRESS fillData;
          tx = SendTransaction taker LIMIT_ORDER_PROTOCOL_ADDRESS fillData (int (g + g div 10));
          h = txHashOf w tx
      in case rpcFailure w eg of
           Some m \<Rightarrow> (Inr \<lparr>success = False, txHash = None, errorMessage = Some m\<rparr>,
                      w2\<lparr>trace := trace w2 @ [eg]\<rparr>)
         | None \<Rightarrow>
             (case rpcFailure w tx of
                Some m \<Rightarrow> (Inr \<lparr>success = False, txHash = None, errorMessage = Some m\<rparr>,
                           w2\<lparr>trace := trace w2 @ [eg, tx]\<rparr>)
              | None \<Rightarrow>
                  (case rpcFailure w (WaitForReceipt h) of
                     Some m \<Rightarrow> (Inr \<lparr>success = False, txHash = None, errorMessage = Some m\<rparr>,
                                w2\<lparr>trace := trace w2 @ [eg, tx, WaitForReceipt h]\<rparr>)
                   | None \<Rightarrow>
                       (Inr \<lparr>success = (txStatusOf w h = Success), txHash = Some h,
                             errorMessage = (if txStatusOf w h = Success then None
                                             else Some ''Transaction reverted'')\<rparr>,
                        w2\<lparr>trace := trace w2 @ [eg, tx, WaitForReceipt h]\<rparr>))))"
proof -
  note fr = ensureTokenApproval_frame [OF apr]
  have fr': "rpcFailure w2 = rpcFailure w" "txHashOf w2 = txHashOf w" "txStatusOf w2 = txStatusOf w"
    "gasEstimateOf w2 = gasEstimateOf w"
    using fr by simp_all
  have v: "validateSufficientBalance (tokenAddress token) taker amt w
             = (Inr \<lparr>sufficient = True, balance = chainBalance w (tokenAddress token) taker\<rparr>,
                w\<lparr>trace := trace w @ [ReadBalance (tokenAddress token) taker]\<rparr>)"
    using rb bal by (simp add: validateSufficientBalance_steps Let_def)
  show ?thesis
    unfolding executeFill_def Let_def using tok
    by (simp add: io_bind_def io_lift_def io_return_def io_catch_def createAccountFromPrivateKey_def
        key ta tk v apr fd request_def waitForTransactionReceipt_def fr' bigintDiv_nat Let_def
        split: option.splits)
qed

lemma BigInt_testOrder:
  "BigInt ''255'' = Inr 255"
  "BigInt ''0'' = Inr 0"
  "BigInt ''100000000'' = Inr 100000000"
  "BigInt ''500000000000000000000'' = Inr 500000000000000000000"
  by (subst BigInt_decimal, simp, simp add: isDigit_def, simp add: sig_eval)+

lemma isHexDigit_simps:
  "isHexDigit CHR ''0''" "isHexDigit CHR ''1''" "isHexDigit CHR ''2''" "isHexDigit CHR ''3''"
  "isHexDigit CHR ''4''" "isHexDigit CHR ''5''" "isHexDigit CHR ''6''" "isHexDigit CHR ''7''"
  "isHexDigit CHR ''8''" "isHexDigit CHR ''9''" "isHexDigit CHR ''a''" "isHexDigit CHR ''b''"
  "isHexDigit CHR ''c''" "isHexDigit CHR ''d''" "isHexDigit CHR ''e''" "isHexDigit CHR ''f''"
  "isHexDigit CHR ''A''" "isHexDigit CHR ''B''" "isHexDigit CHR ''C''" "isHexDigit CHR ''D''"
  "isHexDigit CHR ''E''" "isHexDigit CHR ''F''"
  by (simp_all add: isHexDigit_def)

lemma BigInt_testAddresses:
  "BigInt ''0xA11ce'' = Inr 659918"
  "BigInt (tokenAddress USDC) = Inr 344181018808976184653167882984224724912449532761"
  "BigInt (tokenAddress BRLA) = Inr 1316752347238956265620565791888640748419679116795"
proof -
  have "BigInt (''0x'' @ ''A11ce'') = Inr 659918"
    by (subst BigInt_0x_hex) (simp_all add: isHexDigit_simps sig_eval)
  then show "BigInt ''0xA11ce'' = Inr 659918" by simp
  have "BigInt (''0x'' @ ''3c499c542cEF5E3811e1192ce70d8cC03d5c3359'')
          = Inr 344181018808976184653167882984224724912449532761"
    by (subst BigInt_0x_hex) (simp_all add: isHexDigit_simps sig_eval)
  then show "BigInt (tokenAddress USDC) = Inr 344181018808976184653167882984224724912449532761"
    by (simp add: USDC_def)
  have "BigInt (''0x'' @ ''E6A537a407488807F0bbeb0038B79004f19DDDFb'')
          = Inr 1316752347238956265620565791888640748419679116795"
    by (subst BigInt_0x_hex) (simp_all add: isHexDigit_simps sig_eval)
  then show "BigInt (tokenAddress BRLA) = Inr 1316752347238956265620565791888640748419679116795"
    by (simp add: BRLA_def)
qed

lemma testOrder_takerToken:
  "getTokenByAddress (''0x'' @ padStart 40 CHR ''0'' (toString 16 1316752347238956265620565791888640748419679116795))
     = Some BRLA"
proof -
  have "''0x'' @ padStart 40 CHR ''0'' (toString 16 1316752347238956265620565791888640748419679116795)
          = ''0xe6a537a407488807f0bbeb0038b79004f19dddfb''"
    by (simp add: toString_def padStart_def natToString_eval)
  moreover have "getTokenByAddress ''0xe6a537a407488807f0bbeb0038b79004f19dddfb'' = Some BRLA"
    by code_simp
  ultimately show ?thesis by simp
qed

lemma hexSize_0x: "hexSize (''0x'' @ v) = (length v + 1) div 2"
  by (simp add: hexSize_def startsWith_def)

text \<open>The two values of a compacted hexadecimal signature are 32 bytes long.\<close>

lemma parseSignatureToCompact_hex_sizes:
  assumes len: "length sig = 130" and hex: "list_all isHexDigit sig"
    and inp: "signature = sig \<or> signature = ''0x'' @ sig"
  shows "\<exists>r vs. parseSignatureToCompact signature = Inr (r, vs) \<and> hexSize r = 32 \<and> hexSize vs = 32"
proof -
  define x where "x = (if sigV sig = 28 then int (sigS sig) OR push_bit 255 1 else int (sigS sig))"
  have b: "0 \<le> x" "x < 2 ^ 256" using vsValue_bound [OF hex] by (simp_all add: x_def)
  have "int (nat x) < int (16 ^ 64)" using b by simp
  then have "nat x < 16 ^ 64" by (simp only: of_nat_less_iff)
  then have "length (natToString 16 (nat x)) \<le> 64" by (intro natToString_length) simp_all
  then have lv: "length (padStart 64 CHR ''0'' (natToString 16 (nat x))) = 64"
    by (simp add: padStart_def)
  have lr: "length (take 64 sig) = 64" using len by simp
  have p: "parseSignatureToCompact signature
             = Inr (''0x'' @ take 64 sig, ''0x'' @ padStart 64 CHR ''0'' (natToString 16 (nat x)))"
    unfolding x_def by (rule parseSignatureToCompact_hex [OF len hex inp])
  have "hexSize (''0x'' @ take 64 sig) = 32" unfolding hexSize_0x lr by simp
  moreover have "hexSize (''0x'' @ padStart 64 CHR ''0'' (natToString 16 (nat x))) = 32"
    unfolding hexSize_0x lv by simp
  ultimately show ?thesis using p by blast
qed

text \<open>Call data is built only from integers in the \<open>uint256\<close> range.\<close>

lemma encodeNumber_Inr: "encodeNumber v = Inr y \<Longrightarrow> 0 \<le> v \<and> v \<le> maxUint256"
  by (simp add: encodeNumber_def split: if_splits)

lemma bindE_Inr: "bindE m f = Inr y \<Longrightarrow> \<exists>x. m = Inr x \<and> f x = Inr y"
  by (cases m) (simp_all add: bindE_def)

lemma encodeFunctionData_range:
  assumes "encodeFunctionData os r vs amount tt = Inr fd"
  shows "(\<forall>v \<in> {os_salt os, os_maker os, os_receiver os, os_makerAsset os, os_takerAsset os,
             os_makingAmount os, os_takingAmount os, os_makerTraits os, amount, tt}.
            0 \<le> v \<and> v \<le> maxUint256)
         \<and> hexSize r = 32 \<and> hexSize vs = 32"
  using assms unfolding encodeFunctionData_def
  by (auto dest!: bindE_Inr encodeNumber_Inr simp: encodeBytes32_def split: if_splits)

lemma buildFillOrderData_range:
  assumes "buildFillOrderData ord amt = Inr fd"
  shows "\<exists>os r vs. buildOrderStruct (out_order ord) = Inr os
           \<and> fd = FillOrderCall os r vs amt 0
           \<and> 0 \<le> amt \<and> amt \<le> maxUint256
           \<and> 0 \<le> os_makerTraits os \<and> os_makerTraits os \<le> maxUint256
           \<and> 0 \<le> os_salt os \<and> os_salt os \<le> maxUint256"
proof -
  from assms obtain os where os: "buildOrderStruct (out_order ord) = Inr os"
    and a: "bindE (parseSignatureToCompact (out_signature ord))
              (\<lambda>(r, vs). encodeFunctionData os r vs amt 0) = Inr fd"
    unfolding buildFillOrderData_def by (blast dest: bindE_Inr)
  from a obtain r vs where e: "encodeFunctionData os r vs amt 0 = Inr fd"
    by (auto dest!: bindE_Inr)
  note rg = encodeFunctionData_range [OF e]
  have "fd = FillOrderCall os r vs amt 0"
    using e unfolding encodeFunctionData_def
    by (auto dest!: bindE_Inr)
  with os rg show ?thesis by auto
qed

lemma testOrder_fillData:
  "\<exists>fd. buildFillOrderData testOrder 500000000000000000000 = Inr fd"
proof -
  have l: "length (replicate 64 CHR ''1'' @ replicate 63 CHR ''0'' @ ''71c'') = 130" by code_simp
  have h: "list_all isHexDigit (replicate 64 CHR ''1'' @ replicate 63 CHR ''0'' @ ''71c'')" by code_simp
  have i: "testSignature = replicate 64 CHR ''1'' @ replicate 63 CHR ''0'' @ ''71c''
      \<or> testSignature = ''0x'' @ replicate 64 CHR ''1'' @ replicate 63 CHR ''0'' @ ''71c''"
    by (simp add: testSignature_def)
  obtain r vs where p: "parseSignatureToCompact testSignature = Inr (r, vs)"
    and sz: "hexSize r = 32" "hexSize vs = 32"
    using parseSignatureToCompact_hex_sizes [OF l h i] by blast
  have e: "encodeNumber 255 = Inr 255" "encodeNumber 0 = Inr 0"
    "encodeNumber 659918 = Inr 659918"
    "encodeNumber 100000000 = Inr 100000000"
    "encodeNumber 500000000000000000000 = Inr 500000000000000000000"
    "encodeNumber 344181018808976184653167882984224724912449532761
       = Inr 344181018808976184653167882984224724912449532761"
    "encodeNumber 1316752347238956265620565791888640748419679116795
       = Inr 1316752347238956265620565791888640748419679116795"
    by (simp_all add: encodeNumber_def maxUint256_def)
  show ?thesis
    by (simp add: buildFillOrderData_def buildOrderStruct_def encodeFunctionData_def
        encodeBytes32_def bindE_def testOrder_def BigInt_testOrder BigInt_testAddresses p sz e)
qed

text \<open>The test order filled on the test world: an estimate of 210005 is sent as 231005.\<close>

theorem executeFill_gas_and_status_witness:
  "\<exists>fd w2. buildFillOrderData testOrder 500000000000000000000 = Inr fd
     \<and> gasEstimateOf testWorld ''0xA11ce'' LIMIT_ORDER_PROTOCOL_ADDRESS fd = 210005
     \<and> txStatusOf testWorld ''0xfeed'' = Success
     \<and> executeFill testOrder ''key'' testWorld
         = (Inr \<lparr>success = True, txHash = Some ''0xfeed'', errorMessage = None\<rparr>,
            w2\<lparr>trace := trace w2 @
               [EstimateGas ''0xA11ce'' LIMIT_ORDER_PROTOCOL_ADDRESS fd,
                SendTransaction ''0xA11ce'' LIMIT_ORDER_PROTOCOL_ADDRESS fd 231005,
                WaitForReceipt ''0xfeed'']\<rparr>)"
proof -
  let ?amt = "500000000000000000000 :: int"
  obtain fd where fd: "buildFillOrderData testOrder ?amt = Inr fd"
    using testOrder_fillData by blast
  have key: "privateKeyToAccount testWorld ''key'' = Inr ''0xA11ce''" by (simp add: testWorld_def)
  have ta: "BigInt (o_takingAmount (out_order testOrder)) = Inr ?amt"
    by (simp add: testOrder_def BigInt_testOrder)
  have tk: "BigInt (o_takerAsset (out_order testOrder)) = Inr 1316752347238956265620565791888640748419679116795"
    by (simp add: testOrder_def BigInt_testAddresses)
  note tok = testOrder_takerToken
  have f: "rpcFailure testWorld ev = None" for ev by (simp add: testWorld_def)
  have hs: "txHashOf testWorld ev = ''0xfeed''" for ev by (simp add: testWorld_def)
  have st: "txStatusOf testWorld h = Success" for h by (simp add: testWorld_def)
  have g: "gasEstimateOf testWorld a b c = 210005" for a b c by (simp add: testWorld_def)
  have bal: "?amt \<le> chainBalance testWorld (tokenAddress BRLA) ''0xA11ce''"
    by (simp add: testWorld_def USDC_def BRLA_def)
  obtain ar w2 where apr: "ensureTokenApproval (createPolygonWalletClient ''0xA11ce'') (tokenAddress BRLA)
       ''0xA11ce'' ?amt (testWorld\<lparr>trace := trace testWorld @ [ReadBalance (tokenAddress BRLA) ''0xA11ce'']\<rparr>)
         = (Inr ar, w2)"
    unfolding ensureTokenApproval_steps Let_def
    by (simp add: testWorld_def createPolygonWalletClient_def)
  from executeFill_gas_and_status [OF key ta tk tok f bal apr fd]
  have "executeFill testOrder ''key'' testWorld
         = (Inr \<lparr>success = True, txHash = Some ''0xfeed'', errorMessage = None\<rparr>,
            w2\<lparr>trace := trace w2 @
               [EstimateGas ''0xA11ce'' LIMIT_ORDER_PROTOCOL_ADDRESS fd,
                SendTransaction ''0xA11ce'' LIMIT_ORDER_PROTOCOL_ADDRESS fd 231005,
                WaitForReceipt ''0xfeed'']\<rparr>)"
    by (simp add: f hs st g Let_def)
  with fd g st show ?thesis by blast
qed

section \<open>Revert decoding\<close>

lemma selector_0x: "startsWith ''0x'' d \<Longrightarrow> ''0x'' @ slice 0 8 (drop 2 d) = take 10 d"
proof -
  assume "startsWith ''0x'' d"
  then have "take 2 d = ''0x''" by (simp add: startsWith_def numeral_2_eq_2)
  then have "d = ''0x'' @ drop 2 d" by (metis append_take_drop_id)
  then have "take 10 d = take 10 (''0x'' @ drop 2 d)" by simp
  also have "\<dots> = ''0x'' @ take 8 (drop 2 d)" by simp
  finally show ?thesis by (simp add: slice_def)
qed

lemma errorSelectors_protocol:
  "errorSelectors LIMIT_ORDER_PROTOCOL_ABI =
     [''0x5cd5d233'', ''0xc56873ba'', ''0xf71fbda2'', ''0x7f902a93'', ''0x481ea392'', ''0xd4dfdafe'',
      ''0xb6629c02'', ''0x70a03f48'', ''0x478a5205'']"
  by (simp add: errorSelectors_def LIMIT_ORDER_PROTOCOL_ABI_def toFunctionSelector_def
      List.map_filter_simps)

lemma errorSelectors_solidity:
  "errorSelectors [solidityError, solidityPanic] = [''0x08c379a0'', ''0x4e487b71'']"
  by (simp add: errorSelectors_def solidityError_def solidityPanic_def toFunctionSelector_def
      List.map_filter_simps)

lemma find_None_selectors:
  assumes "sel \<notin> set (errorSelectors abi)"
  shows "find (\<lambda>x. isAbiError x \<and> toFunctionSelector (formatAbiItem x) = Some sel) abi = None"
  using assms
  by (induction abi) (auto simp: errorSelectors_def List.map_filter_simps split: if_splits option.splits)

lemma errorSelectors_append: "errorSelectors (xs @ ys) = errorSelectors xs @ errorSelectors ys"
  by (simp add: errorSelectors_def List.map_filter_def)

lemma decodeErrorResult_unknown:
  assumes "errData \<noteq> []" and "errData \<noteq> ''0x''"
    and "take 10 errData \<notin> set (errorSelectors (abi @ [solidityError, solidityPanic]))"
    and len: "\<forall>s \<in> set (errorSelectors (abi @ [solidityError, solidityPanic])). length s = 10"
  shows "\<exists>e. decodeErrorResult dec abi errData = Inl e"
proof (cases "startsWith ''0x'' errData")
  case True
  have sel: "''0x'' @ slice 0 8 (drop 2 errData) = take 10 errData" by (rule selector_0x [OF True])
  have "find (\<lambda>x. isAbiError x \<and> toFunctionSelector (formatAbiItem x) = Some (take 10 errData))
          (abi @ [solidityError, solidityPanic]) = None"
    by (rule find_None_selectors [OF assms(3)])
  then show ?thesis unfolding decodeErrorResult_def Let_def sel using True by simp
next
  case False
  have "length (take 4 errData) \<noteq> 10" by simp
  then have "take 4 errData \<notin> set (errorSelectors (abi @ [solidityError, solidityPanic]))"
    using len by blast
  then have "find (\<lambda>x. isAbiError x \<and> toFunctionSelector (formatAbiItem x) = Some (take 4 errData))
          (abi @ [solidityError, solidityPanic]) = None"
    by (rule find_None_selectors)
  moreover have "take 4 errData \<noteq> ''0x''"
  proof
    assume "take 4 errData = ''0x''"
    then have "take 2 (take 4 errData) = ''0x''" by simp
    then have "take 2 errData = ''0x''" by simp
    then show False using False by (simp add: startsWith_def numeral_2_eq_2)
  qed
  ultimately show ?thesis using False by (simp add: decodeErrorResult_def Let_def)
qed

lemma stringIncludes_suffix: "stringIncludes (p @ s) s"
proof -
  have "take (length s) (drop (length p) (p @ s)) = s" by simp
  moreover have "length p \<in> set [0..<Suc (length (p @ s))]" by simp
  ultimately show ?thesis unfolding stringIncludes_def list_ex_iff by blast
qed

lemma selector_table:
  "toFunctionSelector ''BadSignature()'' = Some ''0x5cd5d233''"
  "toFunctionSelector ''OrderExpired()'' = Some ''0xc56873ba''"
  "toFunctionSelector ''InvalidatedOrder()'' = Some ''0xf71fbda2''"
  "toFunctionSelector ''TakingAmountExceeded()'' = Some ''0x7f902a93''"
  "toFunctionSelector ''MakingAmountTooLow()'' = Some ''0x481ea392''"
  "toFunctionSelector ''PrivateOrder()'' = Some ''0xd4dfdafe''"
  "toFunctionSelector ''PredicateIsNotTrue()'' = Some ''0xb6629c02''"
  "toFunctionSelector ''TransferFromMakerToTakerFailed()'' = Some ''0x70a03f48''"
  "toFunctionSelector ''TransferFromTakerToMakerFailed()'' = Some ''0x478a5205''"
  "toFunctionSelector ''Error(string)'' = Some ''0x08c379a0''"
  "toFunctionSelector ''Panic(uint256)'' = Some ''0x4e487b71''"
  by (simp_all add: toFunctionSelector_def)

lemma find_unique:
  assumes "x \<in> set xs" and "P x" and "\<forall>y \<in> set xs. P y \<longrightarrow> y = x"
  shows "find P xs = Some x"
  using assms
proof (induction xs)
  case Nil
  then show ?case by simp
next
  case (Cons a xs)
  show ?case
  proof (cases "P a")
    case True
    then have "a = x" using Cons.prems(3) by simp
    then show ?thesis using True by simp
  next
    case False
    then have "x \<noteq> a" using Cons.prems(2) by blast
    then have "x \<in> set xs" using Cons.prems(1) by simp
    moreover have "\<forall>y \<in> set xs. P y \<longrightarrow> y = x" using Cons.prems(3) by simp
    ultimately have "find P xs = Some x" using Cons.IH Cons.prems(2) by blast
    then show ?thesis using False by simp
  qed
qed

lemma protocol_selectors_distinct:
  "distinct (map (\<lambda>x. toFunctionSelector (formatAbiItem x))
     (filter isAbiError (LIMIT_ORDER_PROTOCOL_ABI @ [solidityError, solidityPanic])))"
  by (simp add: LIMIT_ORDER_PROTOCOL_ABI_def solidityError_def solidityPanic_def selector_table)

lemma protocol_selectors_length:
  "\<forall>s \<in> set (map (\<lambda>x. toFunctionSelector (formatAbiItem x))
     (filter isAbiError (LIMIT_ORDER_PROTOCOL_ABI @ [solidityError, solidityPanic]))).
     \<exists>t. s = Some t \<and> length t = 10"
  by (simp add: LIMIT_ORDER_PROTOCOL_ABI_def solidityError_def solidityPanic_def selector_table)

lemma decodeErrorResult_known:
  assumes "AbiError name [] \<in> set LIMIT_ORDER_PROTOCOL_ABI"
    and "startsWith ''0x'' errData"
    and "toFunctionSelector (name @ ''()'') = Some (take 10 errData)"
  shows "decodeErrorResult dec LIMIT_ORDER_PROTOCOL_ABI errData = Inr (name, None)"
proof -
  define full where "full = LIMIT_ORDER_PROTOCOL_ABI @ [solidityError, solidityPanic]"
  define f where "f = (\<lambda>x. toFunctionSelector (formatAbiItem x))"
  define x where "x = AbiError name []"
  define P where "P = (\<lambda>y. isAbiError y \<and> toFunctionSelector (formatAbiItem y) = Some (take 10 errData))"
  have sel: "''0x'' @ slice 0 8 (drop 2 errData) = take 10 errData" by (rule selector_0x [OF assms(2)])
  have xin: "x \<in> set full" using assms(1) by (simp add: full_def x_def)
  have xe: "isAbiError x" by (simp add: x_def)
  have fx: "f x = Some (take 10 errData)" using assms(3) by (simp add: f_def x_def)
  have Px: "P x" using xe fx by (simp add: P_def f_def)
  have d: "distinct (map f (filter isAbiError full))"
    using protocol_selectors_distinct by (simp only: f_def full_def)
  then have inj: "inj_on f (set (filter isAbiError full))" by (simp add: distinct_map)
  have uniq: "\<forall>y \<in> set full. P y \<longrightarrow> y = x"
  proof (intro ballI impI)
    fix y assume y: "y \<in> set full" and "P y"
    then have "isAbiError y" and "f y = f x" using fx by (simp_all add: P_def f_def)
    then show "y = x" using inj y xin xe by (simp add: inj_on_def)
  qed
  have fnd: "find P full = Some x" by (rule find_unique [OF xin Px uniq])
  have "f x \<in> set (map f (filter isAbiError full))" using xin xe by simp
  then obtain t where "f x = Some t" and "length t = 10"
    using protocol_selectors_length unfolding f_def full_def by blast
  then have l: "length (take 10 errData) = 10" using fx by simp
  have ne: "take 10 errData \<noteq> ''0x''"
  proof
    assume "take 10 errData = ''0x''"
    then have "length (take 10 errData) = 2" by simp
    then show False using l by simp
  qed
  show ?thesis
    unfolding decodeErrorResult_def Let_def sel
    using assms(2) ne fnd
    by (simp add: P_def full_def x_def)
qed

lemma toFunctionSelector_length: "toFunctionSelector s = Some t \<Longrightarrow> length t = 10"
  by (auto simp: toFunctionSelector_def split: if_splits)

lemma toFunctionSelector_prefix: "toFunctionSelector s = Some t \<Longrightarrow> take 2 t = ''0x''"
  by (auto simp: toFunctionSelector_def split: if_splits)

lemma toFunctionSelector_0x: "toFunctionSelector s = Some (take 10 d) \<Longrightarrow> startsWith ''0x'' d"
proof -
  assume "toFunctionSelector s = Some (take 10 d)"
  then have "take 2 (take 10 d) = ''0x''" by (rule toFunctionSelector_prefix)
  then show ?thesis by (simp add: startsWith_def numeral_2_eq_2)
qed

lemma errorSelectors_length:
  "\<forall>s \<in> set (errorSelectors abi). length s = 10"
  by (auto simp: errorSelectors_def List.map_filter_def dest: toFunctionSelector_length split: if_splits)

text \<open>
  Claim C8, as amended. A payload whose first four bytes are the selector of an error of
  the protocol's ABI that has no arguments is decoded to the error's name followed by
  \<open>()\<close>. A payload that is neither empty nor \<open>0x\<close>, and whose first ten characters
  are the selector of no error of the protocol's ABI and of neither \<open>Error(string)\<close> nor
  \<open>Panic(uint256)\<close>, is decoded to \<open>Unknown error with selector\<close> followed by these ten
  characters, a string that contains them.
\<close>

theorem decodeRevertError_selectors:
  "(AbiError name [] \<in> set LIMIT_ORDER_PROTOCOL_ABI
      \<and> toFunctionSelector (name @ ''()'') = Some (take 10 errData)
      \<longrightarrow> decodeRevertError dec (Some errData) = name @ ''()'')
   \<and> (errData \<noteq> [] \<and> errData \<noteq> ''0x''
      \<and> take 10 errData \<notin> set (errorSelectors (LIMIT_ORDER_PROTOCOL_ABI @ [solidityError, solidityPanic]))
      \<longrightarrow> decodeRevertError dec (Some errData) = ''Unknown error with selector '' @ take 10 errData
          \<and> stringIncludes (decodeRevertError dec (Some errData)) (take 10 errData))"
proof (intro conjI impI)
  assume a: "AbiError name [] \<in> set LIMIT_ORDER_PROTOCOL_ABI
      \<and> toFunctionSelector (name @ ''()'') = Some (take 10 errData)"
  then have a1: "AbiError name [] \<in> set LIMIT_ORDER_PROTOCOL_ABI"
    and a3: "toFunctionSelector (name @ ''()'') = Some (take 10 errData)" by blast+
  have a2: "startsWith ''0x'' errData" by (rule toFunctionSelector_0x [OF a3])
  have "length (take 10 errData) = 10" by (rule toFunctionSelector_length [OF a3])
  then have ne: "errData \<noteq> []" "errData \<noteq> ''0x''" by auto
  have d: "decodeErrorResult dec LIMIT_ORDER_PROTOCOL_ABI errData = Inr (name, None)"
    by (rule decodeErrorResult_known [OF a1 a2 a3])
  show "decodeRevertError dec (Some errData) = name @ ''()''"
    using ne by (simp add: decodeRevertError_def d)
next
  assume b: "errData \<noteq> [] \<and> errData \<noteq> ''0x''
      \<and> take 10 errData \<notin> set (errorSelectors (LIMIT_ORDER_PROTOCOL_ABI @ [solidityError, solidityPanic]))"
  then have b1: "errData \<noteq> []" and b2: "errData \<noteq> ''0x''"
    and b3: "take 10 errData \<notin> set (errorSelectors (LIMIT_ORDER_PROTOCOL_ABI @ [solidityError, solidityPanic]))"
    by blast+
  obtain e where e: "decodeErrorResult dec LIMIT_ORDER_PROTOCOL_ABI errData = Inl e"
    using decodeErrorResult_unknown [OF b1 b2 b3 errorSelectors_length] by blast
  have r: "decodeRevertError dec (Some errData) = ''Unknown error with selector '' @ take 10 errData"
    using b1 b2 e by (simp add: decodeRevertError_def slice_def)
  show "decodeRevertError dec (Some errData) = ''Unknown error with selector '' @ take 10 errData"
    by (rule r)
  show "stringIncludes (decodeRevertError dec (Some errData)) (take 10 errData)"
    unfolding r by (rule stringIncludes_suffix)
qed

text \<open>
  The selector of \<open>Panic(uint256)\<close> is not one of the protocol's ABI, and yet a panic
  with code 17 is decoded to \<open>Panic(17)\<close>, which does not contain the selector: the
  decoder looks the selector up among the two errors of Solidity as well.
\<close>

theorem decodeRevertError_selectors_counterexample:
  "take 10 (''0x4e487b71'' @ replicate 62 CHR ''0'' @ ''11'') = ''0x4e487b71''
   \<and> ''0x4e487b71'' \<notin> set (errorSelectors LIMIT_ORDER_PROTOCOL_ABI)
   \<and> decodeRevertError Inr (Some (''0x4e487b71'' @ replicate 62 CHR ''0'' @ ''11''))
       = ''Panic(17)''
   \<and> \<not> stringIncludes ''Panic(17)'' ''0x4e487b71''"
proof -
  let ?d = "''0x4e487b71'' @ replicate 62 CHR ''0'' @ ''11''"
  have t: "take 10 ?d = ''0x4e487b71''" by simp
  have n: "''0x4e487b71'' \<notin> set (errorSelectors LIMIT_ORDER_PROTOCOL_ABI)"
    by (simp add: errorSelectors_protocol)
  have s: "startsWith ''0x'' ?d" by (simp add: startsWith_def)
  have sel: "''0x'' @ slice 0 8 (drop 2 ?d) = ''0x4e487b71''"
    using selector_0x [OF s] t by simp
  have fnd: "find (\<lambda>x. isAbiError x \<and> toFunctionSelector (formatAbiItem x) = Some ''0x4e487b71'')
          (LIMIT_ORDER_PROTOCOL_ABI @ [solidityError, solidityPanic]) = Some solidityPanic"
    by (simp add: LIMIT_ORDER_PROTOCOL_ABI_def solidityError_def solidityPanic_def selector_table)
  define payload where "payload = replicate 62 CHR ''0'' @ ''11''"
  have dr: "drop 10 ?d = payload" by (simp add: payload_def)
  have h: "list_all isHexDigit payload" unfolding payload_def by code_simp
  have l: "length payload = 64" by (simp add: payload_def)
  have tk: "take 64 payload = payload" using l by simp
  have v: "digitsValue 16 payload = 17" by (simp add: payload_def sig_eval)
  have n17: "toString 10 17 = ''17''" by (simp add: toString_def natToString_eval)
  have p: "decodeAbiParameters Inr [Uint256] payload = Inr [''17'']"
    unfolding decodeAbiParameters_def Let_def
    by (simp add: l h v tk n17)
  have pne: "payload \<noteq> []" using l by auto
  have de: "decodeErrorResult Inr LIMIT_ORDER_PROTOCOL_ABI ?d = Inr (''Panic'', Some [''17''])"
    unfolding decodeErrorResult_def Let_def if_P [OF s] sel fnd dr
    using pne by (simp add: solidityPanic_def p bindE_def)
  have g: "decodeRevertError f (Some d) = ''Panic(17)''"
    if "d \<noteq> []" and "d \<noteq> ''0x''"
      and "decodeErrorResult f LIMIT_ORDER_PROTOCOL_ABI d = Inr (''Panic'', Some [''17''])" for f d
    using that by (simp add: decodeRevertError_def)
  have ne: "?d \<noteq> []" "?d \<noteq> ''0x''" by simp_all
  have r: "decodeRevertError Inr (Some ?d) = ''Panic(17)''"
    by (rule g [OF ne de])
  have i: "\<not> stringIncludes ''Panic(17)'' ''0x4e487b71''" by code_simp
  from t n r i show ?thesis by blast
qed

text \<open>The selector of \<open>BadSignature()\<close>, and a selector no error has.\<close>

theorem decodeRevertError_selectors_witness:
  "AbiError ''BadSignature'' [] \<in> set LIMIT_ORDER_PROTOCOL_ABI
   \<and> toFunctionSelector (''BadSignature'' @ ''()'') = Some (take 10 ''0x5cd5d233'')
   \<and> decodeRevertError Inr (Some ''0x5cd5d233'') = ''BadSignature()''
   \<and> take 10 ''0xdeadbeef00'' \<notin> set (errorSelectors (LIMIT_ORDER_PROTOCOL_ABI @ [solidityError, solidityPanic]))
   \<and> decodeRevertError Inr (Some ''0xdeadbeef00'')
       = ''Unknown error with selector 0xdeadbeef''"
proof -
  have a1: "AbiError ''BadSignature'' [] \<in> set LIMIT_ORDER_PROTOCOL_ABI"
    by (simp add: LIMIT_ORDER_PROTOCOL_ABI_def)
  have a3: "toFunctionSelector (''BadSignature'' @ ''()'') = Some (take 10 ''0x5cd5d233'')"
    by (simp add: selector_table)
  have b1: "''0xdeadbeef00'' \<noteq> []" "''0xdeadbeef00'' \<noteq> ''0x''" by simp_all
  have b3: "take 10 ''0xdeadbeef00'' \<notin> set (errorSelectors (LIMIT_ORDER_PROTOCOL_ABI @ [solidityError, solidityPanic]))"
    by (simp add: errorSelectors_append errorSelectors_protocol errorSelectors_solidity)
  note t1 = decodeRevertError_selectors [of "''BadSignature''" "''0x5cd5d233''" Inr]
  note t2 = decodeRevertError_selectors [of "''BadSignature''" "''0xdeadbeef00''" Inr]
  from t1 a1 a3
  have r1: "decodeRevertError Inr (Some ''0x5cd5d233'') = ''BadSignature()''"
    by simp
  from t2 b1 b3
  have r2: "decodeRevertError Inr (Some ''0xdeadbeef00'')
       = ''Unknown error with selector 0xdeadbeef''"
    by simp
  from a1 a3 r1 b3 r2 show ?thesis by blast
qed

end
